theory Spec2Isabelle
  imports Complex_Main "HOL-Library.Log_Nat"
begin

section \<open>JavaScript numbers\<close>

text \<open>
  The calculators compute on JavaScript numbers, the binary64 floating-point values. A
  number is modelled as \<open>NaN\<close>, one of the two infinities, or a finite value, which is
  the real number it denotes. Every arithmetic operation on finite operands is the exact
  result rounded to the nearest binary64 value, a tie going to the even significand, and
  an overflow going to an infinity (\<open>round64\<close> below). The sign of a zero is not
  modelled: the calculators divide by a zero only where it is the difference of two equal
  numbers, which is \<open>+0\<close>.
\<close>

datatype number = NaN | NInf | Fin real | PInf

fun Number_isFinite :: "number \<Rightarrow> bool" where
  "Number_isFinite (Fin x) = True"
| "Number_isFinite _ = False"

text \<open>The comparisons \<open>a < b\<close>, \<open>a <= b\<close>, \<open>a > b\<close>, \<open>a >= b\<close> and \<open>a === b\<close>;
  each is false when an operand is \<open>NaN\<close>.\<close>

fun js_lt :: "number \<Rightarrow> number \<Rightarrow> bool" where
  "js_lt NaN b = False"
| "js_lt a NaN = False"
| "js_lt (Fin x) (Fin y) = (x < y)"
| "js_lt a NInf = False"
| "js_lt PInf b = False"
| "js_lt NInf b = True"
| "js_lt (Fin x) PInf = True"

fun js_eq :: "number \<Rightarrow> number \<Rightarrow> bool" where
  "js_eq NaN b = False"
| "js_eq a NaN = False"
| "js_eq a b = (a = b)"

definition js_le :: "number \<Rightarrow> number \<Rightarrow> bool" where
  "js_le a b = (js_lt a b \<or> js_eq a b)"

definition js_gt :: "number \<Rightarrow> number \<Rightarrow> bool" where
  "js_gt a b = js_lt b a"

definition js_ge :: "number \<Rightarrow> number \<Rightarrow> bool" where
  "js_ge a b = js_le b a"

text \<open>\<open>Math.max\<close> and \<open>Math.min\<close> of two arguments: \<open>NaN\<close> when an argument is.\<close>

fun Math_max :: "number \<Rightarrow> number \<Rightarrow> number" where
  "Math_max NaN b = NaN"
| "Math_max a NaN = NaN"
| "Math_max a b = (if js_lt a b then b else a)"

fun Math_min :: "number \<Rightarrow> number \<Rightarrow> number" where
  "Math_min NaN b = NaN"
| "Math_min a NaN = NaN"
| "Math_min a b = (if js_lt b a then b else a)"

text \<open>\<open>Math.round\<close> rounds to the nearest integer, a tie towards \<open>+\<infinity>\<close>;
  \<open>Math.ceil\<close> rounds up. Both are exact and leave a non-finite argument as it is.\<close>

fun Math_round :: "number \<Rightarrow> number" where
  "Math_round (Fin x) = Fin (of_int \<lfloor>x + 1 / 2\<rfloor>)"
| "Math_round a = a"


subsection \<open>Rounding to binary64\<close>

text \<open>\<open>rne\<close> rounds a real to the nearest integer, a tie to the even one.\<close>

definition rne :: "real \<Rightarrow> int" where
  "rne y = (let f = \<lfloor>y\<rfloor>; d = y - of_int f
            in if d < 1 / 2 then f
               else if 1 / 2 < d then f + 1
               else if even f then f else f + 1)"

text \<open>\<open>ilog2 a\<close> is the binade of a positive real: the \<open>e\<close> with
  \<open>2^e <= a < 2^(e+1)\<close>, computed from the bit length of an integer.\<close>

definition ilog2 :: "real \<Rightarrow> int" where
  "ilog2 a = (if 1 \<le> a then bitlen \<lfloor>a\<rfloor> - 1 else - bitlen (\<lceil>1 / a\<rceil> - 1))"

text \<open>\<open>rounded a\<close> is the positive real \<open>a\<close> rounded to 53 significant bits in its
  binade, or to a multiple of \<open>2^-1074\<close> below the normal range.\<close>

definition rounded :: "real \<Rightarrow> real" where
  "rounded a =
     (let e = max (ilog2 a) (- 1022);
          ulp = power_int 2 (e - 52)
      in of_int (rne (a / ulp)) * ulp)"

text \<open>\<open>round64 x\<close> is the binary64 value of the real \<open>x\<close>: an infinity from
  \<open>2^1024\<close> on.\<close>

definition round64 :: "real \<Rightarrow> number" where
  "round64 x =
     (if x = 0 then Fin 0
      else
        let v = rounded \<bar>x\<bar>
        in if power_int 2 1024 \<le> v then (if 0 < x then PInf else NInf)
           else Fin (if 0 < x then v else - v))"

subsection \<open>Arithmetic\<close>

fun js_neg :: "number \<Rightarrow> number" where
  "js_neg NaN = NaN"
| "js_neg NInf = PInf"
| "js_neg (Fin x) = Fin (- x)"
| "js_neg PInf = NInf"

fun js_add :: "number \<Rightarrow> number \<Rightarrow> number" where
  "js_add NaN b = NaN"
| "js_add a NaN = NaN"
| "js_add (Fin x) (Fin y) = round64 (x + y)"
| "js_add PInf NInf = NaN"
| "js_add NInf PInf = NaN"
| "js_add PInf b = PInf"
| "js_add NInf b = NInf"
| "js_add (Fin x) b = b"

definition js_sub :: "number \<Rightarrow> number \<Rightarrow> number" where
  "js_sub a b = js_add a (js_neg b)"

text \<open>An infinity with the sign of \<open>s\<close>, and \<open>NaN\<close> for \<open>s = 0\<close> (infinity times zero).\<close>

definition signed_inf :: "real \<Rightarrow> number" where
  "signed_inf s = (if s = 0 then NaN else if 0 < s then PInf else NInf)"

fun js_mul :: "number \<Rightarrow> number \<Rightarrow> number" where
  "js_mul NaN b = NaN"
| "js_mul a NaN = NaN"
| "js_mul (Fin x) (Fin y) = round64 (x * y)"
| "js_mul (Fin x) PInf = signed_inf x"
| "js_mul (Fin x) NInf = signed_inf (- x)"
| "js_mul PInf (Fin y) = signed_inf y"
| "js_mul NInf (Fin y) = signed_inf (- y)"
| "js_mul PInf PInf = PInf"
| "js_mul NInf NInf = PInf"
| "js_mul PInf NInf = NInf"
| "js_mul NInf PInf = NInf"

text \<open>Division: a finite value over zero is an infinity of its sign (\<open>NaN\<close> for
  \<open>0 / 0\<close>), the zero divisor taken as \<open>+0\<close>.\<close>

fun js_div :: "number \<Rightarrow> number \<Rightarrow> number" where
  "js_div NaN b = NaN"
| "js_div a NaN = NaN"
| "js_div (Fin x) (Fin y) = (if y = 0 then signed_inf x else round64 (x / y))"
| "js_div (Fin x) b = Fin 0"
| "js_div PInf (Fin y) = (if 0 \<le> y then PInf else NInf)"
| "js_div NInf (Fin y) = (if 0 \<le> y then NInf else PInf)"
| "js_div a b = NaN"

text \<open>
  \<open>Math.pow\<close>. The language fixes its value where an operand is \<open>NaN\<close>, an infinity or
  a zero, and where a negative base meets a fractional exponent; everywhere else the value
  is an approximation the host chooses. That part is the parameter \<open>pw\<close>, on the finite
  non-zero base and exponent; the calculators take it as their first argument.
\<close>

fun Math_pow :: "(real \<Rightarrow> real \<Rightarrow> number) \<Rightarrow> number \<Rightarrow> number \<Rightarrow> number" where
  "Math_pow pw b NaN = NaN"
| "Math_pow pw b (Fin y) =
     (if y = 0 then Fin 1
      else case b of
        NaN \<Rightarrow> NaN
      | Fin x \<Rightarrow>
          (if x = 0 then (if 0 < y then Fin 0 else PInf)
           else if x < 0 \<and> y \<noteq> of_int \<lfloor>y\<rfloor> then NaN
           else pw x y)
      | PInf \<Rightarrow> (if 0 < y then PInf else Fin 0)
      | NInf \<Rightarrow> (if 0 < y then (if y = of_int \<lfloor>y\<rfloor> \<and> odd \<lfloor>y\<rfloor> then NInf else PInf)
                 else Fin 0))"
| "Math_pow pw b PInf =
     (case b of
        NaN \<Rightarrow> NaN
      | Fin x \<Rightarrow> (if 1 < \<bar>x\<bar> then PInf else if \<bar>x\<bar> = 1 then NaN else Fin 0)
      | PInf \<Rightarrow> PInf
      | NInf \<Rightarrow> PInf)"
| "Math_pow pw b NInf =
     (case b of
        NaN \<Rightarrow> NaN
      | Fin x \<Rightarrow> (if 1 < \<bar>x\<bar> then Fin 0 else if \<bar>x\<bar> = 1 then NaN else PInf)
      | PInf \<Rightarrow> Fin 0
      | NInf \<Rightarrow> Fin 0)"

text \<open>A host power that is correctly rounded, for the examples.\<close>

definition pow_rounded :: "real \<Rightarrow> real \<Rightarrow> number" where
  "pow_rounded x y =
     (if y = of_int \<lfloor>y\<rfloor> then round64 (power_int x \<lfloor>y\<rfloor>) else round64 (x powr y))"

text \<open>The reading of a number the specification uses: a non-finite value counts as 0.\<close>

fun finiteOrZero :: "number \<Rightarrow> real" where
  "finiteOrZero (Fin x) = x"
| "finiteOrZero a = 0"

section \<open>The monthly payment (src/components/PurchaseCalculator.tsx)\<close>

text \<open>A decimal literal of the source that is not a binary64 value, such as \<open>0.8\<close>,
  denotes the nearest one: \<open>round64 0.8\<close>. Integers and \<open>0.5\<close>, \<open>6.5\<close> are exact.\<close>

definition Purchase_clampNonNegative :: "number \<Rightarrow> number" where
  "Purchase_clampNonNegative n = (if Number_isFinite n then Math_max (Fin 0) n else Fin 0)"

definition Purchase_calculateMonthlyPrincipalAndInterest ::
    "(real \<Rightarrow> real \<Rightarrow> number) \<Rightarrow> number \<Rightarrow> number \<Rightarrow> number \<Rightarrow> number" where
  "Purchase_calculateMonthlyPrincipalAndInterest pw principal' annualRatePercent termYears =
     (let P = Purchase_clampNonNegative principal';
          years = Purchase_clampNonNegative termYears;
          n = Math_round (js_mul years (Fin 12))
      in if js_eq P (Fin 0) \<or> js_eq n (Fin 0) then Fin 0
         else
           let annualRate = js_div (Purchase_clampNonNegative annualRatePercent) (Fin 100);
               r = js_div annualRate (Fin 12)
           in if js_eq r (Fin 0) then js_div P n
              else
                let pow = Math_pow pw (js_add (Fin 1) r) n
                in js_div (js_mul (js_mul P r) pow) (js_sub pow (Fin 1)))"

section \<open>The cash-out refinance (src/components/CashOutCalculator.tsx)\<close>

text \<open>Every calculator file declares its own \<open>clampNonNegative\<close> and its own payment
  function; each copy is modelled from its own file and named after it.\<close>

definition CashOut_clampNonNegative :: "number \<Rightarrow> number" where
  "CashOut_clampNonNegative n = (if Number_isFinite n then Math_max (Fin 0) n else Fin 0)"

definition CashOut_calculateMonthlyPrincipalAndInterest ::
    "(real \<Rightarrow> real \<Rightarrow> number) \<Rightarrow> number \<Rightarrow> number \<Rightarrow> number \<Rightarrow> number" where
  "CashOut_calculateMonthlyPrincipalAndInterest pw principal' annualRatePercent termYears =
     (let P = CashOut_clampNonNegative principal';
          years = CashOut_clampNonNegative termYears;
          n = Math_round (js_mul years (Fin 12))
      in if js_eq P (Fin 0) \<or> js_eq n (Fin 0) then Fin 0
         else
           let annualRate = js_div (CashOut_clampNonNegative annualRatePercent) (Fin 100);
               r = js_div annualRate (Fin 12)
           in if js_eq r (Fin 0) then js_div P n
              else
                let pow = Math_pow pw (js_add (Fin 1) r) n
                in js_div (js_mul (js_mul P r) pow) (js_sub pow (Fin 1)))"

definition DEFAULT_TERM_YEARS :: number where
  "DEFAULT_TERM_YEARS = Fin 30"

definition MAX_LTV :: number where
  "MAX_LTV = round64 0.8"

record CashOut_result =
  maxLoanAllowed :: number
  maxCashOutAllowed :: number
  adjustedCashOut :: number
  newLoanAmount :: number
  newMonthlyPayment :: number
  ltvPercent :: number
  wasCapped :: bool

definition CashOutCalculator ::
    "(real \<Rightarrow> real \<Rightarrow> number) \<Rightarrow> number \<Rightarrow> number \<Rightarrow> number \<Rightarrow> number \<Rightarrow>
     CashOut_result" where
  "CashOutCalculator pw currentHomeValue existingMortgageBalance desiredCashOutAmount newInterestRate =
     (let homeValue = CashOut_clampNonNegative currentHomeValue;
          existing = CashOut_clampNonNegative existingMortgageBalance;
          desired = CashOut_clampNonNegative desiredCashOutAmount;
          maxLoan = js_mul homeValue MAX_LTV;
          maxCashOut = Math_max (Fin 0) (js_sub maxLoan existing);
          cashOut = Math_min desired maxCashOut;
          loan = js_add existing cashOut;
          payment = CashOut_calculateMonthlyPrincipalAndInterest pw loan newInterestRate
                      DEFAULT_TERM_YEARS;
          ltv = (if js_gt homeValue (Fin 0) then js_mul (js_div loan homeValue) (Fin 100)
                 else Fin 0)
      in \<lparr> maxLoanAllowed = maxLoan,
           maxCashOutAllowed = maxCashOut,
           adjustedCashOut = cashOut,
           newLoanAmount = loan,
           newMonthlyPayment = payment,
           ltvPercent = ltv,
           wasCapped = js_gt desired maxCashOut \<rparr>)"

section \<open>The refinance break-even (component RefinanceCalculator)\<close>

definition Refinance_clampNonNegative :: "number \<Rightarrow> number" where
  "Refinance_clampNonNegative n = (if Number_isFinite n then Math_max (Fin 0) n else Fin 0)"

definition Refinance_calculateMonthlyPrincipalAndInterest ::
    "(real \<Rightarrow> real \<Rightarrow> number) \<Rightarrow> number \<Rightarrow> number \<Rightarrow> number \<Rightarrow> number" where
  "Refinance_calculateMonthlyPrincipalAndInterest pw principal' annualRatePercent termYears =
     (let P = Refinance_clampNonNegative principal';
          years = Refinance_clampNonNegative termYears;
          n = Math_round (js_mul years (Fin 12))
      in if js_eq P (Fin 0) \<or> js_eq n (Fin 0) then Fin 0
         else
           let annualRate = js_div (Refinance_clampNonNegative annualRatePercent) (Fin 100);
               r = js_div annualRate (Fin 12)
           in if js_eq r (Fin 0) then js_div P n
              else
                let pow = Math_pow pw (js_add (Fin 1) r) n
                in js_div (js_mul (js_mul P r) pow) (js_sub pow (Fin 1)))"

record Refinance_result =
  oldMonthlyPayment :: number
  newMonthlyPayment :: number
  monthlySavings :: number
  breakEvenMonths :: number


section \<open>The rate buydown schedule (src/components/RateBuydownCalculator.tsx)\<close>

definition RateBuydown_clampNonNegative :: "number \<Rightarrow> number" where
  "RateBuydown_clampNonNegative n = (if Number_isFinite n then Math_max (Fin 0) n else Fin 0)"

definition RateBuydown_calculateMonthlyPrincipalAndInterest ::
    "(real \<Rightarrow> real \<Rightarrow> number) \<Rightarrow> number \<Rightarrow> number \<Rightarrow> number \<Rightarrow> number" where
  "RateBuydown_calculateMonthlyPrincipalAndInterest pw principal' annualRatePercent termYears =
     (let P = RateBuydown_clampNonNegative principal';
          years = RateBuydown_clampNonNegative termYears;
          n = Math_round (js_mul years (Fin 12))
      in if js_eq P (Fin 0) \<or> js_eq n (Fin 0) then Fin 0
         else
           let annualRate = js_div (RateBuydown_clampNonNegative annualRatePercent) (Fin 100);
               r = js_div annualRate (Fin 12)
           in if js_eq r (Fin 0) then js_div P n
              else
                let pow = Math_pow pw (js_add (Fin 1) r) n
                in js_div (js_mul (js_mul P r) pow) (js_sub pow (Fin 1)))"

datatype BuydownType = none | temporary_2_1

text \<open>The optional fields \<open>savingsMonthly?\<close> and \<open>savingsAnnual?\<close> are options:
  \<open>None\<close> is the field left out of the object literal (read back as \<open>undefined\<close>).
  A label is the UTF-8 bytes of the source's string; \<open>en_dash\<close> is U+2013.\<close>

record ScheduleRow =
  periodLabel :: string
  ratePercent :: number
  monthlyPayment :: number
  annualPayment :: number
  savingsMonthly :: "number option"
  savingsAnnual :: "number option"

record RateBuydown_result =
  baseMonthlyPayment :: number
  schedule :: "ScheduleRow list"

definition en_dash :: string where
  "en_dash = [CHR 0xE2, CHR 0x80, CHR 0x93]"

definition TERM_YEARS :: number where
  "TERM_YEARS = Fin 30"

definition RateBuydownCalculator ::
    "(real \<Rightarrow> real \<Rightarrow> number) \<Rightarrow> BuydownType \<Rightarrow> number \<Rightarrow> number \<Rightarrow> RateBuydown_result" where
  "RateBuydownCalculator pw buydownType loanAmount baseRatePercent =
     (let basePayment = RateBuydown_calculateMonthlyPrincipalAndInterest pw loanAmount
                          baseRatePercent TERM_YEARS;
          rows =
            (if buydownType = temporary_2_1 then
               let y1Rate = Math_max (Fin 0) (js_sub baseRatePercent (Fin 2));
                   y2Rate = Math_max (Fin 0) (js_sub baseRatePercent (Fin 1));
                   y3Rate = Math_max (Fin 0) baseRatePercent;
                   y1Pay = RateBuydown_calculateMonthlyPrincipalAndInterest pw loanAmount y1Rate
                             TERM_YEARS;
                   y2Pay = RateBuydown_calculateMonthlyPrincipalAndInterest pw loanAmount y2Rate
                             TERM_YEARS;
                   y3Pay = RateBuydown_calculateMonthlyPrincipalAndInterest pw loanAmount y3Rate
                             TERM_YEARS
               in [ \<lparr> periodLabel = ''Year 1'',
                      ratePercent = y1Rate,
                      monthlyPayment = y1Pay,
                      annualPayment = js_mul y1Pay (Fin 12),
                      savingsMonthly = Some (js_sub basePayment y1Pay),
                      savingsAnnual = Some (js_mul (js_sub basePayment y1Pay) (Fin 12)) \<rparr>,
                    \<lparr> periodLabel = ''Year 2'',
                      ratePercent = y2Rate,
                      monthlyPayment = y2Pay,
                      annualPayment = js_mul y2Pay (Fin 12),
                      savingsMonthly = Some (js_sub basePayment y2Pay),
                      savingsAnnual = Some (js_mul (js_sub basePayment y2Pay) (Fin 12)) \<rparr>,
                    \<lparr> periodLabel = ''Year 3'' @ en_dash @ ''30'',
                      ratePercent = y3Rate,
                      monthlyPayment = y3Pay,
                      annualPayment = js_mul y3Pay (Fin 12),
                      savingsMonthly = None,
                      savingsAnnual = None \<rparr> ]
             else
               [ \<lparr> periodLabel = ''Year 1'' @ en_dash @ ''30'',
                   ratePercent = Math_max (Fin 0) baseRatePercent,
                   monthlyPayment = basePayment,
                   annualPayment = js_mul basePayment (Fin 12),
                   savingsMonthly = None,
                   savingsAnnual = None \<rparr> ])
      in \<lparr> baseMonthlyPayment = basePayment, schedule = rows \<rparr>)"

section \<open>The reverse mortgage estimate (component ReverseMortgageCalculator)\<close>

definition ReverseMortgage_clampNonNegative :: "number \<Rightarrow> number" where
  "ReverseMortgage_clampNonNegative n =
     (if Number_isFinite n then Math_max (Fin 0) n else Fin 0)"

definition clamp :: "number \<Rightarrow> number \<Rightarrow> number \<Rightarrow> number" where
  "clamp n min' max' =
     (if \<not> Number_isFinite n then min' else Math_min max' (Math_max min' n))"

definition estimatedAvailabilityPct :: "number \<Rightarrow> number" where
  "estimatedAvailabilityPct age =
     (let a = clamp age (Fin 0) (Fin 120)
      in if js_lt a (Fin 62) then Fin 0
         else if js_le a (Fin 69) then
           (let t = js_div (js_sub a (Fin 62)) (js_sub (Fin 69) (Fin 62))
            in js_add (round64 0.35) (js_mul t (js_sub (round64 0.4) (round64 0.35))))
         else if js_le a (Fin 79) then
           (let t = js_div (js_sub a (Fin 70)) (js_sub (Fin 79) (Fin 70))
            in js_add (round64 0.45) (js_mul t (js_sub (Fin 0.5) (round64 0.45))))
         else
           (let capped = Math_min a (Fin 95);
                t = js_div (js_sub capped (Fin 80)) (js_sub (Fin 95) (Fin 80))
            in js_add (round64 0.55) (js_mul t (js_sub (round64 0.6) (round64 0.55)))))"

record ReverseMortgage_result =
  availabilityPct :: number
  grossPrincipalLimit :: number
  netPrincipalLimit :: number
  ageEligible :: bool

definition ReverseMortgageCalculator ::
    "number \<Rightarrow> number \<Rightarrow> number \<Rightarrow> ReverseMortgage_result" where
  "ReverseMortgageCalculator youngestBorrowerAge homeValue currentMortgageBalance =
     (let age = ReverseMortgage_clampNonNegative youngestBorrowerAge;
          eligible = js_ge age (Fin 62);
          pct = estimatedAvailabilityPct age;
          gross = js_mul (ReverseMortgage_clampNonNegative homeValue) pct;
          net = Math_max (Fin 0)
                  (js_sub gross (ReverseMortgage_clampNonNegative currentMortgageBalance))
      in \<lparr> availabilityPct = pct,
           grossPrincipalLimit = gross,
           netPrincipalLimit = net,
           ageEligible = eligible \<rparr>)"

section \<open>The rent-versus-buy projection (src/components/RentVsBuyCalculator.tsx)\<close>

definition RentVsBuy_clampNonNegative :: "number \<Rightarrow> number" where
  "RentVsBuy_clampNonNegative n = (if Number_isFinite n then Math_max (Fin 0) n else Fin 0)"

definition RentVsBuy_calculateMonthlyPayment ::
    "(real \<Rightarrow> real \<Rightarrow> number) \<Rightarrow> number \<Rightarrow> number \<Rightarrow> number \<Rightarrow> number" where
  "RentVsBuy_calculateMonthlyPayment pw principal' annualRatePercent termYears =
     (let P = RentVsBuy_clampNonNegative principal';
          years = RentVsBuy_clampNonNegative termYears;
          n = Math_round (js_mul years (Fin 12))
      in if js_eq P (Fin 0) \<or> js_eq n (Fin 0) then Fin 0
         else
           let annualRate = js_div (RentVsBuy_clampNonNegative annualRatePercent) (Fin 100);
               r = js_div annualRate (Fin 12)
           in if js_eq r (Fin 0) then js_div P n
              else
                let pow = Math_pow pw (js_add (Fin 1) r) n
                in js_div (js_mul (js_mul P r) pow) (js_sub pow (Fin 1)))"

definition ASSUMED_DOWN_PCT :: number where "ASSUMED_DOWN_PCT = round64 0.2"
definition ASSUMED_RATE_PCT :: number where "ASSUMED_RATE_PCT = Fin 6.5"
definition ASSUMED_TERM_YEARS :: number where "ASSUMED_TERM_YEARS = Fin 30"
definition ASSUMED_TAX_PCT :: number where "ASSUMED_TAX_PCT = round64 0.01"
definition ASSUMED_MAINT_PCT :: number where "ASSUMED_MAINT_PCT = round64 0.01"

record DataPoint =
  year :: nat
  rentCost :: number
  buyNetCost :: number

text \<open>The variables the two loops assign to. The loop counters \<open>year\<close> and \<open>m\<close> are
  natural numbers: they start at an integer and are only incremented.\<close>

record RentVsBuy_state =
  remainingBalance :: number
  cumulativePrincipalPaid :: number
  cumulativeRentCost :: number
  cumulativeMortgagePaid :: number
  cumulativeTaxPaid :: number
  cumulativeMaintenancePaid :: number
  points :: "DataPoint list"
  firstCrossover :: "nat option"

text \<open>The inner loop \<open>for (let m = 0; m < 12; m++)\<close>, with its \<open>break\<close>.\<close>

function month_loop :: "number \<Rightarrow> number \<Rightarrow> nat \<Rightarrow> RentVsBuy_state \<Rightarrow> RentVsBuy_state" where
  "month_loop monthlyMortgagePayment r m st =
     (if m < 12 then
        (if js_le (remainingBalance st) (Fin 0) then st
         else
           let interestPayment = js_mul (remainingBalance st) r;
               principalPayment = Math_max (Fin 0) (js_sub monthlyMortgagePayment interestPayment)
           in month_loop monthlyMortgagePayment r (Suc m)
                (st\<lparr> remainingBalance :=
                       Math_max (Fin 0) (js_sub (remainingBalance st) principalPayment),
                     cumulativePrincipalPaid :=
                       js_add (cumulativePrincipalPaid st) principalPayment \<rparr>))
      else st)"
  by pat_completeness auto
termination
  by (relation "measure (\<lambda>(monthlyMortgagePayment, r, m, st). 12 - m)") auto

declare month_loop.simps [simp del]

text \<open>The body of the outer loop for the year \<open>year'\<close>.\<close>

definition year_body ::
    "(real \<Rightarrow> real \<Rightarrow> number) \<Rightarrow> number \<Rightarrow> number \<Rightarrow> number \<Rightarrow> number \<Rightarrow> number \<Rightarrow> number \<Rightarrow> number \<Rightarrow>
     nat \<Rightarrow> RentVsBuy_state \<Rightarrow> RentVsBuy_state" where
  "year_body pw price0 rent0 rentInfl appr downPayment monthlyMortgagePayment r year' st =
     (let yearHomeValue =
            js_mul price0 (Math_pow pw (js_add (Fin 1) appr) (js_sub (Fin (real year')) (Fin 1)));
          yearMonthlyRent =
            js_mul rent0 (Math_pow pw (js_add (Fin 1) rentInfl) (js_sub (Fin (real year')) (Fin 1)));
          yearRentCost = js_mul yearMonthlyRent (Fin 12);
          st1 = st\<lparr> cumulativeRentCost := js_add (cumulativeRentCost st) yearRentCost \<rparr>;
          st2 = month_loop monthlyMortgagePayment r 0 st1;
          yearMortgagePaid = js_mul monthlyMortgagePayment (Fin 12);
          st3 = st2\<lparr> cumulativeMortgagePaid :=
                        js_add (cumulativeMortgagePaid st2) yearMortgagePaid \<rparr>;
          yearTax = js_mul yearHomeValue ASSUMED_TAX_PCT;
          yearMaint = js_mul yearHomeValue ASSUMED_MAINT_PCT;
          st4 = st3\<lparr> cumulativeTaxPaid := js_add (cumulativeTaxPaid st3) yearTax,
                      cumulativeMaintenancePaid :=
                        js_add (cumulativeMaintenancePaid st3) yearMaint \<rparr>;
          appreciationGain = Math_max (Fin 0) (js_sub yearHomeValue price0);
          equity = js_add (js_add downPayment (cumulativePrincipalPaid st4)) appreciationGain;
          cashOut = js_add (js_add (js_add downPayment (cumulativeMortgagePaid st4))
                              (cumulativeTaxPaid st4))
                      (cumulativeMaintenancePaid st4);
          netBuyCost = Math_max (Fin 0) (js_sub cashOut equity);
          st5 = (if firstCrossover st4 = None \<and> js_le netBuyCost (cumulativeRentCost st4)
                 then st4\<lparr> firstCrossover := Some year' \<rparr> else st4)
      in st5\<lparr> points := points st5 @
                  [\<lparr> year = year', rentCost = cumulativeRentCost st5,
                     buyNetCost = netBuyCost \<rparr>] \<rparr>)"

text \<open>The outer loop \<open>for (let year = 1; year <= years; year++)\<close>. Its bound is a
  number, and the loop would not end on \<open>years = Infinity\<close>: not returning is \<open>None\<close>.\<close>

partial_function (option) year_loop ::
    "number \<Rightarrow> (nat \<Rightarrow> RentVsBuy_state \<Rightarrow> RentVsBuy_state) \<Rightarrow> nat \<Rightarrow> RentVsBuy_state \<Rightarrow>
     RentVsBuy_state option" where
  "year_loop years body year' st =
     (if js_le (Fin (real year')) years then year_loop years body (Suc year') (body year' st)
      else Some st)"

record RentVsBuy_summary =
  finalRentCost :: number
  finalBuyNetCost :: number
  downPayment :: number
  loanAmount :: number
  monthlyMortgagePayment :: number

record RentVsBuy_result =
  data :: "DataPoint list"
  crossoverYear :: "nat option"
  summary :: RentVsBuy_summary

definition RentVsBuyCalculator ::
    "(real \<Rightarrow> real \<Rightarrow> number) \<Rightarrow> number \<Rightarrow> number \<Rightarrow> number \<Rightarrow> number \<Rightarrow> number \<Rightarrow> RentVsBuy_result option" where
  "RentVsBuyCalculator pw targetHomePrice currentMonthlyRent rentInflationPct homeAppreciationPct
       durationYears =
     (let years = Math_min (Fin 50) (Math_max (Fin 1) (Math_round durationYears));
          price0 = RentVsBuy_clampNonNegative targetHomePrice;
          rent0 = RentVsBuy_clampNonNegative currentMonthlyRent;
          rentInfl = js_div (RentVsBuy_clampNonNegative rentInflationPct) (Fin 100);
          appr = js_div (RentVsBuy_clampNonNegative homeAppreciationPct) (Fin 100);
          downPayment = js_mul price0 ASSUMED_DOWN_PCT;
          loanAmount = Math_max (Fin 0) (js_sub price0 downPayment);
          monthlyMortgagePayment =
            RentVsBuy_calculateMonthlyPayment pw loanAmount ASSUMED_RATE_PCT ASSUMED_TERM_YEARS;
          r = js_div (js_div ASSUMED_RATE_PCT (Fin 100)) (Fin 12);
          init = \<lparr> remainingBalance = loanAmount,
                   cumulativePrincipalPaid = Fin 0,
                   cumulativeRentCost = Fin 0,
                   cumulativeMortgagePaid = Fin 0,
                   cumulativeTaxPaid = Fin 0,
                   cumulativeMaintenancePaid = Fin 0,
                   points = [],
                   firstCrossover = None \<rparr>
      in case year_loop years (year_body pw price0 rent0 rentInfl appr downPayment
                            monthlyMortgagePayment r) 1 init of
           None \<Rightarrow> None
         | Some st \<Rightarrow>
             Some \<lparr> data = points st,
                    crossoverYear = firstCrossover st,
                    summary =
                      \<lparr> finalRentCost =
                           (case points st of [] \<Rightarrow> Fin 0 | _ \<Rightarrow> rentCost (last (points st))),
                         finalBuyNetCost =
                           (case points st of [] \<Rightarrow> Fin 0 | _ \<Rightarrow> buyNetCost (last (points st))),
                         downPayment = downPayment,
                         loanAmount = loanAmount,
                         monthlyMortgagePayment = monthlyMortgagePayment \<rparr> \<rparr>)"

section \<open>Auxiliary definitions for the statements\<close>

text \<open>A number that is not below zero: a non-negative finite number, \<open>+\<infinity>\<close> or
  \<open>NaN\<close>; one that is moreover not \<open>NaN\<close>; and a number that is at least 1.\<close>

fun not_negative :: "number \<Rightarrow> bool" where
  "not_negative (Fin v) = (0 \<le> v)"
| "not_negative NInf = False"
| "not_negative a = True"

fun nonneg_num :: "number \<Rightarrow> bool" where
  "nonneg_num (Fin v) = (0 \<le> v)"
| "nonneg_num PInf = True"
| "nonneg_num a = False"

fun ge_one_num :: "number \<Rightarrow> bool" where
  "ge_one_num (Fin v) = (1 \<le> v)"
| "ge_one_num PInf = True"
| "ge_one_num a = False"

text \<open>What the properties below ask of the host power: at a base and an exponent of at
  least 1 its value is at least 1 (or \<open>+\<infinity>\<close>), as the exact power is. A power whose
  error stays below one unit in the last place has this property.\<close>

definition pow_ge_one :: "(real \<Rightarrow> real \<Rightarrow> number) \<Rightarrow> bool" where
  "pow_ge_one pw = (\<forall>x y. 1 \<le> x \<and> 1 \<le> y \<longrightarrow> ge_one_num (pw x y))"

text \<open>The crossover test of the loop, \<open>netBuyCost <= cumulativeRentCost\<close>, on a stored
  point.\<close>

definition crosses :: "DataPoint \<Rightarrow> bool" where
  "crosses p = js_le (buyNetCost p) (rentCost p)"

text \<open>The loop invariant of the crossover: the recorded year is the year of the first
  stored point that crosses.\<close>

definition crossover_inv :: "RentVsBuy_state \<Rightarrow> bool" where
  "crossover_inv st = (firstCrossover st = map_option year (find crosses (points st)))"

section \<open>Properties of the rounding\<close>

lemma ilog2_bounds:
  assumes "0 < a"
  shows "power_int 2 (ilog2 a) \<le> a \<and> a < power_int 2 (ilog2 a + 1)"
proof (cases "1 \<le> a")
  case True
  define n where "n = nat \<lfloor>a\<rfloor>"
  define k where "k = floorlog 2 n"
  have n1: "1 \<le> n" using True by (simp add: n_def le_nat_iff)
  have na: "real n \<le> a" "a < real n + 1"
    using True unfolding n_def by (simp_all add: of_nat_nat)
  have b: "2 ^ (k - 1) \<le> n" "n < 2 ^ k"
    using floorlog_bounds [of n 2] n1 unfolding k_def by simp_all
  have k1: "1 \<le> k" using b n1 by (cases k) auto
  have il: "ilog2 a = int k - 1" using True by (simp add: ilog2_def bitlen_def n_def k_def)
  have e1: "power_int (2::real) (int k - 1) = 2 ^ (k - 1)"
    using k1 by (simp add: power_int_def nat_diff_distrib')
  have e2: "power_int (2::real) (int k - 1 + 1) = 2 ^ k" by simp
  have "(2::real) ^ (k - 1) \<le> real n" using b(1) by (metis of_nat_le_iff of_nat_numeral of_nat_power)
  then have lo: "(2::real) ^ (k - 1) \<le> a" using na by linarith
  have "n + 1 \<le> 2 ^ k" using b(2) by simp
  then have "real (n + 1) \<le> 2 ^ k" by (metis of_nat_le_iff of_nat_numeral of_nat_power)
  then have "real n + 1 \<le> 2 ^ k" by (simp only: of_nat_add of_nat_1)
  then have hi: "a < 2 ^ k" using na by linarith
  show ?thesis unfolding il e1 e2 using lo hi by simp
next
  case False
  then have a1: "a < 1" by simp
  define N where "N = \<lceil>1 / a\<rceil>"
  define n where "n = nat (N - 1)"
  define k where "k = floorlog 2 n"
  have inv: "1 < 1 / a" using assms a1 by simp
  have N2: "2 \<le> N" unfolding N_def using inv by linarith
  have Na: "1 / a \<le> of_int N" "of_int N - 1 < 1 / a" unfolding N_def by linarith+
  have n1: "1 \<le> n" "int n = N - 1" using N2 by (simp_all add: n_def)
  have b: "2 ^ (k - 1) \<le> n" "n < 2 ^ k"
    using floorlog_bounds [of n 2] n1 unfolding k_def by simp_all
  have k1: "1 \<le> k" using b n1 by (cases k) auto
  have il: "ilog2 a = - int k" using False by (simp add: ilog2_def bitlen_def n_def k_def N_def)
  have rn: "real n = of_int N - 1" using n1(2) by (metis of_int_diff of_int_of_nat_eq of_int_1)
  have "real n + 1 \<le> 2 ^ k"
  proof -
    have "n + 1 \<le> 2 ^ k" using b(2) by simp
    then have "real (n + 1) \<le> 2 ^ k" by (metis of_nat_le_iff of_nat_numeral of_nat_power)
    then show ?thesis by (simp only: of_nat_add of_nat_1)
  qed
  then have "1 / a \<le> 2 ^ k" using Na rn by linarith
  then have lo: "1 / 2 ^ k \<le> a" using assms by (simp add: field_simps)
  have "(2::real) ^ (k - 1) \<le> real n" using b(1) by (metis of_nat_le_iff of_nat_numeral of_nat_power)
  then have "2 ^ (k - 1) < 1 / a" using Na rn by linarith
  then have hi: "a < 1 / 2 ^ (k - 1)" using assms by (simp add: field_simps)
  have e1: "power_int (2::real) (- int k) = 1 / 2 ^ k"
    by (simp add: power_int_minus_divide)
  have e2: "power_int (2::real) (- int k + 1) = 1 / 2 ^ (k - 1)"
  proof -
    have "- int k + 1 = - int (k - 1)" using k1 by simp
    then show ?thesis by (simp only: power_int_minus_divide power_int_of_nat)
  qed
  show ?thesis unfolding il e1 e2 using lo hi by simp
qed


lemma pow2_less_D: "power_int (2::real) m < power_int 2 n \<Longrightarrow> m < n"
proof (rule ccontr)
  assume less: "power_int (2::real) m < power_int 2 n" and "\<not> m < n"
  then have "n \<le> m" by simp
  then have "power_int (2::real) n \<le> power_int 2 m" by (rule power_int_increasing) simp
  with less show False by simp
qed

lemma ilog2_unique:
  assumes "0 < a" "power_int 2 e \<le> a" "a < power_int 2 (e + 1)"
  shows "ilog2 a = e"
proof -
  have b: "power_int 2 (ilog2 a) \<le> a" "a < power_int 2 (ilog2 a + 1)"
    using ilog2_bounds [OF assms(1)] by simp_all
  have "power_int (2::real) e < power_int 2 (ilog2 a + 1)" using assms(2) b(2) by linarith
  then have "e < ilog2 a + 1" by (rule pow2_less_D)
  moreover have "power_int (2::real) (ilog2 a) < power_int 2 (e + 1)" using assms(3) b(1) by linarith
  then have "ilog2 a < e + 1" by (rule pow2_less_D)
  ultimately show ?thesis by simp
qed

lemma rne_bounds: "\<lfloor>y\<rfloor> \<le> rne y \<and> rne y \<le> \<lfloor>y\<rfloor> + 1"
  by (simp add: rne_def Let_def)

lemma rne_of_int [simp]: "rne (of_int k) = k"
  by (simp add: rne_def)

lemma rne_lower:
  assumes "of_int k \<le> y"
  shows "k \<le> rne y"
proof -
  from assms have "k \<le> \<lfloor>y\<rfloor>" by (simp add: le_floor_iff)
  with rne_bounds [of y] show ?thesis by linarith
qed

lemma rne_upper:
  assumes "y \<le> of_int k"
  shows "rne y \<le> k"
proof (cases "y = of_int k")
  case True
  then show ?thesis by simp
next
  case False
  with assms have "y < of_int k" by simp
  then have "\<lfloor>y\<rfloor> < k" by (simp add: floor_less_iff)
  with rne_bounds [of y] show ?thesis by simp
qed

lemma round64_pos:
  "0 < x \<Longrightarrow> round64 x = (if power_int 2 1024 \<le> rounded x then PInf else Fin (rounded x))"
  by (simp add: round64_def Let_def)

lemma round64_minus: "round64 (- x) = js_neg (round64 x)"
  by (simp add: round64_def Let_def)

lemma round64_0 [simp]: "round64 0 = Fin 0"
  by (simp add: round64_def)

lemma rounded_nonneg: "0 \<le> a \<Longrightarrow> 0 \<le> rounded a"
proof -
  assume a: "0 \<le> a"
  define e where "e = max (ilog2 a) (- 1022)"
  have "0 \<le> a / power_int 2 (e - 52)" using a by simp
  then have "0 \<le> rne (a / power_int 2 (e - 52))" using rne_lower [of 0] by simp
  then show ?thesis unfolding rounded_def Let_def e_def [symmetric] by simp
qed

text \<open>Rounding never goes below the bottom of the binade.\<close>

lemma rounded_ge_binade:
  assumes "0 < a" "- 1022 \<le> ilog2 a"
  shows "power_int 2 (ilog2 a) \<le> rounded a"
proof -
  define e where "e = ilog2 a"
  have e: "max (ilog2 a) (- 1022) = e" using assms(2) by (simp add: e_def)
  define ulp :: real where "ulp = power_int 2 (e - 52)"
  have ulp0: "0 < ulp" by (simp add: ulp_def)
  have split: "power_int (2::real) e = 2 ^ 52 * ulp"
  proof -
    have "power_int (2::real) e = power_int 2 (52 + (e - 52))" by simp
    also have "\<dots> = power_int 2 52 * power_int 2 (e - 52)" by (rule power_int_add) simp
    finally show ?thesis by (simp add: ulp_def)
  qed
  have "power_int 2 e \<le> a" using ilog2_bounds [OF assms(1)] by (simp add: e_def)
  then have "2 ^ 52 * ulp \<le> a" by (simp only: split)
  then have "2 ^ 52 \<le> a / ulp" using ulp0 by (simp add: pos_le_divide_eq)
  then have "of_int (2 ^ 52) \<le> a / ulp" by simp
  then have "2 ^ 52 \<le> rne (a / ulp)" by (rule rne_lower)
  then have "(2::real) ^ 52 \<le> of_int (rne (a / ulp))"
    by (metis of_int_le_iff of_int_numeral of_int_power)
  then have "2 ^ 52 * ulp \<le> of_int (rne (a / ulp)) * ulp" using ulp0 by simp
  moreover have "rounded a = of_int (rne (a / ulp)) * ulp"
    by (simp add: rounded_def Let_def e ulp_def)
  ultimately show ?thesis
    unfolding e_def [symmetric] split by simp
qed

lemma rounded_ge_one:
  assumes "1 \<le> a"
  shows "1 \<le> rounded a"
proof -
  have a0: "0 < a" using assms by simp
  have "1 < power_int (2::real) (ilog2 a + 1)" using ilog2_bounds [OF a0] assms by linarith
  then have "power_int (2::real) 0 < power_int 2 (ilog2 a + 1)" by simp
  then have "0 < ilog2 a + 1" by (rule pow2_less_D)
  then have e0: "0 \<le> ilog2 a" by simp
  then have "1 \<le> power_int (2::real) (ilog2 a)" by simp
  moreover have "power_int 2 (ilog2 a) \<le> rounded a"
    using a0 e0 by (intro rounded_ge_binade) simp_all
  ultimately show ?thesis by linarith
qed

text \<open>A value on the grid of its binade is left as it is.\<close>

lemma rounded_exact:
  assumes "a / power_int 2 (max (ilog2 a) (- 1022) - 52) = of_int m"
  shows "rounded a = a"
proof -
  define ulp :: real where "ulp = power_int 2 (max (ilog2 a) (- 1022) - 52)"
  have ulp0: "ulp \<noteq> 0" by (simp add: ulp_def)
  have "rounded a = of_int (rne (a / ulp)) * ulp"
    by (simp add: rounded_def Let_def ulp_def)
  also have "\<dots> = of_int m * ulp" using assms by (simp add: ulp_def)
  also have "\<dots> = a" using assms ulp0 by (simp add: ulp_def [symmetric] field_simps)
  finally show ?thesis .
qed


text \<open>Evaluation of the rounding, the binade of the argument given.\<close>

lemma rounded_eval:
  assumes "0 < a" "power_int 2 e \<le> a" "a < power_int 2 (e + 1)"
  shows "rounded a = of_int (rne (a / power_int 2 (max e (- 1022) - 52))) *
           power_int 2 (max e (- 1022) - 52)"
  using ilog2_unique [OF assms] by (simp add: rounded_def Let_def)

lemma rne_eval:
  "rne y = (if y - of_int \<lfloor>y\<rfloor> < 1 / 2 then \<lfloor>y\<rfloor>
            else if 1 / 2 < y - of_int \<lfloor>y\<rfloor> then \<lfloor>y\<rfloor> + 1
            else if even \<lfloor>y\<rfloor> then \<lfloor>y\<rfloor> else \<lfloor>y\<rfloor> + 1)"
  by (simp add: rne_def Let_def)


lemma round64_eval_pos:
  assumes "0 < a" "power_int 2 e \<le> a" "a < power_int 2 (e + 1)"
  shows "round64 a =
    (let v = of_int (rne (a / power_int 2 (max e (- 1022) - 52))) *
               power_int 2 (max e (- 1022) - 52)
     in if power_int 2 1024 \<le> v then PInf else Fin v)"
  using assms(1) rounded_eval [OF assms] by (simp add: round64_pos Let_def)

lemma round64_not_NaN [simp]: "round64 x \<noteq> NaN"
  by (simp add: round64_def Let_def)

lemma round64_nonneg: "0 \<le> x \<Longrightarrow> nonneg_num (round64 x)"
  using rounded_nonneg [of x] by (cases "x = 0") (simp_all add: round64_pos)

lemma round64_nonpos: "x \<le> 0 \<Longrightarrow> nonneg_num (js_neg (round64 x))"
  using round64_nonneg [of "- x"] by (simp add: round64_minus)

lemma round64_ge_one: "1 \<le> x \<Longrightarrow> ge_one_num (round64 x)"
  using rounded_ge_one [of x] by (simp add: round64_pos)

text \<open>From \<open>2^1024\<close> on the rounding overflows.\<close>

lemma round64_overflow:
  assumes "power_int 2 1024 \<le> x"
  shows "round64 x = PInf"
proof -
  have big: "0 < power_int (2::real) 1024" by simp
  with assms have x0: "0 < x" by linarith
  have "power_int 2 1024 < power_int (2::real) (ilog2 x + 1)"
    using ilog2_bounds [OF x0] assms by linarith
  then have e: "1024 \<le> ilog2 x" using pow2_less_D [of 1024 "ilog2 x + 1"] by simp
  then have "power_int (2::real) 1024 \<le> power_int 2 (ilog2 x)"
    by (intro power_int_increasing) simp_all
  moreover have "power_int 2 (ilog2 x) \<le> rounded x"
    using x0 e by (intro rounded_ge_binade) simp_all
  ultimately have "power_int 2 1024 \<le> rounded x" by linarith
  with x0 show ?thesis by (simp add: round64_pos del: power_int_numeral)
qed

text \<open>Integers below \<open>2^53\<close> are binary64 values.\<close>

lemma rounded_int:
  assumes "0 < k" "k < 2 ^ 53"
  shows "rounded (of_int k) = of_int k"
proof -
  define a :: real where "a = of_int k"
  define e where "e = ilog2 a"
  have a1: "1 \<le> a" using assms(1) by (simp add: a_def)
  then have a0: "0 < a" by simp
  have b: "power_int 2 e \<le> a" "a < power_int 2 (e + 1)"
    using ilog2_bounds [OF a0] by (simp_all add: e_def)
  have "power_int (2::real) 0 < power_int 2 (e + 1)" using a1 b(2) by simp
  then have e0: "0 \<le> e" using pow2_less_D [of 0 "e + 1"] by simp
  have "a < 2 ^ 53" using assms(2) unfolding a_def
    by (metis of_int_less_iff of_int_numeral of_int_power)
  then have "power_int (2::real) e < power_int 2 53" using b(1) by simp
  then have e52: "e \<le> 52" using pow2_less_D [of e 53] by simp
  have me: "max e (- 1022) = e" using e0 by simp
  have ulp: "power_int (2::real) (e - 52) = 1 / 2 ^ nat (52 - e)"
  proof -
    have "e - 52 = - int (nat (52 - e))" using e52 by simp
    then show ?thesis by (simp only: power_int_minus_divide power_int_of_nat)
  qed
  have "a / power_int 2 (max (ilog2 a) (- 1022) - 52) = of_int (k * 2 ^ nat (52 - e))"
    unfolding e_def [symmetric] me ulp by (simp add: a_def)
  then show ?thesis unfolding a_def [symmetric] by (rule rounded_exact)
qed

lemma round64_int:
  assumes "\<bar>k\<bar> < 2 ^ 53"
  shows "round64 (of_int k) = Fin (of_int k)"
proof -
  have big: "(2::real) ^ 53 < power_int 2 1024" by simp
  have pos: "round64 (of_int j) = Fin (of_int j)" if "0 < j" "j < 2 ^ 53" for j :: int
  proof -
    have "real_of_int j < 2 ^ 53" using that(2)
      by (metis of_int_less_iff of_int_numeral of_int_power)
    with big have "\<not> power_int 2 1024 \<le> real_of_int j" by linarith
    with that show ?thesis by (simp add: round64_pos rounded_int del: power_int_numeral)
  qed
  show ?thesis
  proof (cases "k = 0")
    case True
    then show ?thesis by simp
  next
    case False
    show ?thesis
    proof (cases "0 < k")
      case True
      with assms pos [of k] show ?thesis by simp
    next
      case neg: False
      with False assms have "0 < - k" "- k < 2 ^ 53" by simp_all
      then have "round64 (of_int (- k)) = Fin (of_int (- k))" by (rule pos)
      then have "js_neg (round64 (of_int k)) = Fin (- of_int k)"
        by (simp add: round64_minus)
      then show ?thesis by (cases "round64 (of_int k)") simp_all
    qed
  qed
qed

lemma round64_numeral:
  "numeral n < (2::int) ^ 53 \<Longrightarrow> round64 (numeral n) = Fin (numeral n)"
  using round64_int [of "numeral n"] by simp

lemma round64_1 [simp]: "round64 1 = Fin 1"
  using round64_int [of 1] by simp

lemma round64_of_nat:
  assumes "n < 2 ^ 53"
  shows "round64 (real n) = Fin (real n)"
proof -
  from assms have "int n < 2 ^ 53" by (metis of_nat_less_iff of_nat_numeral of_nat_power)
  then have "\<bar>int n\<bar> < 2 ^ 53" by simp
  then have "round64 (of_int (int n)) = Fin (of_int (int n))" by (rule round64_int)
  then show ?thesis by simp
qed

section \<open>Signs through the operations\<close>

lemma nonneg_not_negative: "nonneg_num a \<Longrightarrow> not_negative a"
  by (cases a) simp_all

lemma ge_one_nonneg: "ge_one_num a \<Longrightarrow> nonneg_num a"
  by (cases a) simp_all

lemma not_negative_iff: "not_negative a = (\<not> js_lt a (Fin 0))"
  by (cases a) auto

lemma not_negative_cases:
  "not_negative a = (a = NaN \<or> a = PInf \<or> (\<exists>v. a = Fin v \<and> 0 \<le> v))"
  by (cases a) auto

lemma round64_not_negative: "0 \<le> x \<Longrightarrow> not_negative (round64 x)"
  by (rule nonneg_not_negative) (rule round64_nonneg)

lemma js_mul_not_negative:
  assumes "not_negative a" "not_negative b"
  shows "not_negative (js_mul a b)"
proof (cases a)
  case (Fin x)
  with assms show ?thesis
    by (cases b) (auto simp: signed_inf_def round64_not_negative)
next
  case PInf
  with assms show ?thesis by (cases b) (auto simp: signed_inf_def)
qed (use assms in auto)

lemma js_div_not_negative:
  assumes "not_negative a" "not_negative b"
  shows "not_negative (js_div a b)"
proof (cases a)
  case (Fin x)
  with assms show ?thesis
    by (cases b) (auto simp: signed_inf_def round64_not_negative)
next
  case PInf
  with assms show ?thesis by (cases b) auto
qed (use assms in auto)

lemma js_add_nonneg:
  assumes "nonneg_num a" "nonneg_num b"
  shows "nonneg_num (js_add a b)"
proof (cases a)
  case (Fin x)
  with assms show ?thesis by (cases b) (auto intro: round64_nonneg)
next
  case PInf
  with assms show ?thesis by (cases b) auto
qed (use assms in auto)

lemma js_mul_nonneg_pos:
  assumes "nonneg_num a" "0 < c"
  shows "nonneg_num (js_mul a (Fin c))"
  using assms by (cases a) (auto simp: signed_inf_def intro: round64_nonneg)

lemma js_div_nonneg_pos:
  assumes "nonneg_num a" "0 < c"
  shows "nonneg_num (js_div a (Fin c))"
  using assms by (cases a) (auto intro: round64_nonneg)

lemma js_sub_one_not_negative:
  assumes "a = NaN \<or> ge_one_num a"
  shows "not_negative (js_sub a (Fin 1))"
proof (cases a)
  case (Fin v)
  with assms have "0 \<le> v - 1" by simp
  then have "nonneg_num (round64 (v - 1))" by (rule round64_nonneg)
  with Fin show ?thesis by (simp add: js_sub_def nonneg_not_negative)
qed (use assms in \<open>auto simp: js_sub_def\<close>)

text \<open>The rounding of a number that is not above zero is not above zero.\<close>

lemma Math_max_0_round64_nonpos:
  assumes "x \<le> 0"
  shows "Math_max (Fin 0) (round64 x) = Fin 0"
  using round64_nonpos [OF assms] by (cases "round64 x") simp_all

lemma pow_rounded_ge_one: "pow_ge_one pow_rounded"
  unfolding pow_ge_one_def
proof (intro allI impI)
  fix x y :: real
  assume xy: "1 \<le> x \<and> 1 \<le> y"
  show "ge_one_num (pow_rounded x y)"
  proof (cases "y = of_int \<lfloor>y\<rfloor>")
    case True
    from xy have "0 \<le> \<lfloor>y\<rfloor>" by simp
    with xy have "1 \<le> power_int x \<lfloor>y\<rfloor>" by simp
    then have "ge_one_num (round64 (power_int x \<lfloor>y\<rfloor>))" by (rule round64_ge_one)
    with True show ?thesis by (simp add: pow_rounded_def)
  next
    case False
    from xy have "1 \<le> x powr y" by (simp add: ge_one_powr_ge_zero)
    then have "ge_one_num (round64 (x powr y))" by (rule round64_ge_one)
    with False show ?thesis by (simp add: pow_rounded_def)
  qed
qed

section \<open>Lemmas on the calculators\<close>

lemma Math_max_Fin: "Math_max (Fin x) (Fin y) = Fin (max x y)"
  by (simp add: max_def)

lemma Math_min_Fin: "Math_min (Fin x) (Fin y) = Fin (min x y)"
  by (simp add: min_def)

lemma js_cmp_Fin:
  "js_le (Fin x) (Fin y) = (x \<le> y)"
  "js_gt (Fin x) (Fin y) = (y < x)"
  "js_ge (Fin x) (Fin y) = (y \<le> x)"
  by (auto simp: js_le_def js_gt_def js_ge_def)

lemma js_eq_Fin: "js_eq a (Fin x) = (a = Fin x)"
  by (cases a) simp_all

lemma Purchase_clamp_eq:
  "Purchase_clampNonNegative n = Fin (max 0 (finiteOrZero n))"
  by (cases n) (auto simp: Purchase_clampNonNegative_def)

lemma CashOut_clamp_copy: "CashOut_clampNonNegative = Purchase_clampNonNegative"
  by (rule ext) (simp add: CashOut_clampNonNegative_def Purchase_clampNonNegative_def)

lemma CashOut_payment_copy:
  "CashOut_calculateMonthlyPrincipalAndInterest =
     Purchase_calculateMonthlyPrincipalAndInterest"
  unfolding CashOut_calculateMonthlyPrincipalAndInterest_def
    Purchase_calculateMonthlyPrincipalAndInterest_def CashOut_clamp_copy ..

lemma Refinance_clamp_copy: "Refinance_clampNonNegative = Purchase_clampNonNegative"
  by (rule ext) (simp add: Refinance_clampNonNegative_def Purchase_clampNonNegative_def)

lemma Refinance_payment_copy:
  "Refinance_calculateMonthlyPrincipalAndInterest =
     Purchase_calculateMonthlyPrincipalAndInterest"
  unfolding Refinance_calculateMonthlyPrincipalAndInterest_def
    Purchase_calculateMonthlyPrincipalAndInterest_def Refinance_clamp_copy ..

lemma RateBuydown_clamp_copy: "RateBuydown_clampNonNegative = Purchase_clampNonNegative"
  by (rule ext) (simp add: RateBuydown_clampNonNegative_def Purchase_clampNonNegative_def)

lemma RateBuydown_payment_copy:
  "RateBuydown_calculateMonthlyPrincipalAndInterest =
     Purchase_calculateMonthlyPrincipalAndInterest"
  unfolding RateBuydown_calculateMonthlyPrincipalAndInterest_def
    Purchase_calculateMonthlyPrincipalAndInterest_def RateBuydown_clamp_copy ..

lemma RentVsBuy_clamp_copy: "RentVsBuy_clampNonNegative = Purchase_clampNonNegative"
  by (rule ext) (simp add: RentVsBuy_clampNonNegative_def Purchase_clampNonNegative_def)

lemma RentVsBuy_payment_copy:
  "RentVsBuy_calculateMonthlyPayment =
     Purchase_calculateMonthlyPrincipalAndInterest"
  unfolding RentVsBuy_calculateMonthlyPayment_def
    Purchase_calculateMonthlyPrincipalAndInterest_def RentVsBuy_clamp_copy ..

lemma ReverseMortgage_clamp_copy: "ReverseMortgage_clampNonNegative = Purchase_clampNonNegative"
  by (rule ext) (simp add: ReverseMortgage_clampNonNegative_def Purchase_clampNonNegative_def)

text \<open>The binary64 values of the decimal literals of the source.\<close>

lemma lit_0_2: "round64 (1 / 5) = Fin (3602879701896397 / 18014398509481984)"
  by (subst round64_eval_pos [where e = "- 3"]) (simp_all add: rne_eval Let_def)

lemma lit_0_8: "round64 (4 / 5) = Fin (3602879701896397 / 4503599627370496)"
  by (subst round64_eval_pos [where e = "- 1"]) (simp_all add: rne_eval Let_def)

lemma lit_0_01: "round64 (1 / 100) = Fin (5764607523034235 / 576460752303423488)"
  by (subst round64_eval_pos [where e = "- 7"]) (simp_all add: rne_eval Let_def)

lemma lit_0_35: "round64 (7 / 20) = Fin (3152519739159347 / 9007199254740992)"
  by (subst round64_eval_pos [where e = "- 2"]) (simp_all add: rne_eval Let_def)

lemma lit_0_4: "round64 (2 / 5) = Fin (3602879701896397 / 9007199254740992)"
  by (subst round64_eval_pos [where e = "- 2"]) (simp_all add: rne_eval Let_def)

lemma lit_0_45: "round64 (9 / 20) = Fin (8106479329266893 / 18014398509481984)"
  by (subst round64_eval_pos [where e = "- 2"]) (simp_all add: rne_eval Let_def)

lemma lit_0_55: "round64 (11 / 20) = Fin (2476979795053773 / 4503599627370496)"
  by (subst round64_eval_pos [where e = "- 1"]) (simp_all add: rne_eval Let_def)

lemma lit_0_6: "round64 (3 / 5) = Fin (5404319552844595 / 9007199254740992)"
  by (subst round64_eval_pos [where e = "- 1"]) (simp_all add: rne_eval Let_def)

section \<open>Lemmas on the payment function\<close>

lemma Purchase_payment_unfold:
  "Purchase_calculateMonthlyPrincipalAndInterest pw p a t =
     (let P = max 0 (finiteOrZero p);
          years = max 0 (finiteOrZero t);
          n = Math_round (js_mul (Fin years) (Fin 12));
          r = js_div (js_div (Fin (max 0 (finiteOrZero a))) (Fin 100)) (Fin 12);
          pow = Math_pow pw (js_add (Fin 1) r) n
      in if P = 0 \<or> n = Fin 0 then Fin 0
         else if r = Fin 0 then js_div (Fin P) n
         else js_div (js_mul (js_mul (Fin P) r) pow) (js_sub pow (Fin 1)))"
  unfolding Purchase_calculateMonthlyPrincipalAndInterest_def Let_def Purchase_clamp_eq js_eq_Fin
  by simp

text \<open>The number of periods is a non-negative integer or \<open>+\<infinity>\<close>; the monthly rate is
  not negative and not \<open>NaN\<close>.\<close>

lemma periods_class:
  assumes "0 \<le> y"
  shows "Math_round (js_mul (Fin y) (Fin 12)) = PInf \<or>
         (\<exists>k. Math_round (js_mul (Fin y) (Fin 12)) = Fin (of_int k) \<and> 0 \<le> k)"
proof -
  from assms have "nonneg_num (round64 (y * 12))" by (intro round64_nonneg) simp
  then show ?thesis
  proof (cases "round64 (y * 12)")
    case (Fin v)
    with \<open>nonneg_num (round64 (y * 12))\<close> have "0 \<le> \<lfloor>v + 1 / 2\<rfloor>" by simp
    with Fin show ?thesis by auto
  qed simp_all
qed

lemma rate_class:
  assumes "0 \<le> a"
  shows "nonneg_num (js_div (js_div (Fin a) (Fin 100)) (Fin 12))"
proof -
  from assms have "nonneg_num (js_div (Fin a) (Fin 100))"
    by (simp add: round64_nonneg)
  then show ?thesis by (rule js_div_nonneg_pos) simp
qed

lemma base_class:
  assumes "nonneg_num r"
  shows "ge_one_num (js_add (Fin 1) r)"
  using assms by (cases r) (auto intro: round64_ge_one)

lemma pow_class:
  assumes pw: "pow_ge_one pw" and b: "ge_one_num b"
    and n: "n = PInf \<or> (\<exists>k. n = Fin (of_int k) \<and> 1 \<le> k)"
  shows "Math_pow pw b n = NaN \<or> ge_one_num (Math_pow pw b n)"
proof (cases "n = PInf")
  case True
  with b show ?thesis by (cases b) auto
next
  case False
  with n obtain k :: int where k: "n = Fin (of_int k)" "1 \<le> k" by blast
  show ?thesis
  proof (cases b)
    case (Fin x)
    with b have x: "1 \<le> x" by simp
    with pw k(2) have "ge_one_num (pw x (of_int k))" by (simp add: pow_ge_one_def)
    with Fin k x show ?thesis by simp
  next
    case PInf
    with k show ?thesis by simp
  qed (use b in auto)
qed

text \<open>The payment is never below zero: it is a non-negative number, \<open>+\<infinity>\<close> or
  \<open>NaN\<close>.\<close>

lemma Purchase_payment_not_negative:
  assumes pw: "pow_ge_one pw"
  shows "not_negative (Purchase_calculateMonthlyPrincipalAndInterest pw p a t)"
proof -
  define P where "P = max 0 (finiteOrZero p)"
  define n where "n = Math_round (js_mul (Fin (max 0 (finiteOrZero t))) (Fin 12))"
  define r where "r = js_div (js_div (Fin (max 0 (finiteOrZero a))) (Fin 100)) (Fin 12)"
  define pow where "pow = Math_pow pw (js_add (Fin 1) r) n"
  have P0: "0 \<le> P" by (simp add: P_def)
  have nc: "n = PInf \<or> (\<exists>k. n = Fin (of_int k) \<and> 0 \<le> k)"
    unfolding n_def by (rule periods_class) simp
  have rc: "nonneg_num r" unfolding r_def by (rule rate_class) simp
  have code: "Purchase_calculateMonthlyPrincipalAndInterest pw p a t =
      (if P = 0 \<or> n = Fin 0 then Fin 0
       else if r = Fin 0 then js_div (Fin P) n
       else js_div (js_mul (js_mul (Fin P) r) pow) (js_sub pow (Fin 1)))"
    unfolding Purchase_payment_unfold Let_def P_def n_def r_def pow_def ..
  show ?thesis
  proof (cases "P = 0 \<or> n = Fin 0")
    case True
    then show ?thesis unfolding code by auto
  next
    case False
    with nc have n1: "n = PInf \<or> (\<exists>k. n = Fin (of_int k) \<and> 1 \<le> k)"
      by (auto simp: order_le_less)
    have nn: "not_negative n" using nc by auto
    have Pn: "not_negative (Fin P)" using P0 by simp
    show ?thesis
    proof (cases "r = Fin 0")
      case True
      have "not_negative (js_div (Fin P) n)" using Pn nn by (rule js_div_not_negative)
      with False True show ?thesis unfolding code by simp
    next
      case r: False
      have "ge_one_num (js_add (Fin 1) r)" using rc by (rule base_class)
      then have pc: "pow = NaN \<or> ge_one_num pow"
        unfolding pow_def using pw n1 by (intro pow_class)
      then have np: "not_negative pow" by (auto intro: nonneg_not_negative ge_one_nonneg)
      have nm: "not_negative (js_mul (Fin P) r)"
        using Pn nonneg_not_negative [OF rc] by (rule js_mul_not_negative)
      have num: "not_negative (js_mul (js_mul (Fin P) r) pow)"
        using nm np by (rule js_mul_not_negative)
      have den: "not_negative (js_sub pow (Fin 1))"
        using pc by (rule js_sub_one_not_negative)
      have "not_negative (js_div (js_mul (js_mul (Fin P) r) pow) (js_sub pow (Fin 1)))"
        using num den by (rule js_div_not_negative)
      with False r show ?thesis unfolding code by simp
    qed
  qed
qed

lemma Purchase_payment_clamped:
  "Purchase_calculateMonthlyPrincipalAndInterest pw p a t =
     Purchase_calculateMonthlyPrincipalAndInterest pw
       (Fin (max 0 (finiteOrZero p))) (Fin (max 0 (finiteOrZero a)))
       (Fin (max 0 (finiteOrZero t)))"
  unfolding Purchase_payment_unfold by simp

section \<open>Lemmas on the cash-out calculator\<close>

lemma Math_max_0_nonneg: "a \<noteq> NaN \<Longrightarrow> nonneg_num (Math_max (Fin 0) a)"
  by (cases a) auto

lemma js_sub_Fin_not_NaN: "nonneg_num a \<Longrightarrow> js_sub a (Fin x) \<noteq> NaN"
  by (cases a) (auto simp: js_sub_def)

lemma MAX_LTV_eq: "MAX_LTV = Fin (3602879701896397 / 4503599627370496)"
  by (simp add: MAX_LTV_def lit_0_8)

text \<open>The outputs of the cash-out calculator, the clamps resolved.\<close>

lemma CashOut_unfold:
  fixes h e d rate :: number
  defines "hv \<equiv> max 0 (finiteOrZero h)"
    and "ex \<equiv> max 0 (finiteOrZero e)"
    and "de \<equiv> max 0 (finiteOrZero d)"
  defines "mc \<equiv> Math_max (Fin 0) (js_sub (js_mul (Fin hv) MAX_LTV) (Fin ex))"
  shows "CashOutCalculator pw h e d rate =
    \<lparr> maxLoanAllowed = js_mul (Fin hv) MAX_LTV,
      maxCashOutAllowed = mc,
      adjustedCashOut = Math_min (Fin de) mc,
      newLoanAmount = js_add (Fin ex) (Math_min (Fin de) mc),
      newMonthlyPayment =
        CashOut_calculateMonthlyPrincipalAndInterest pw (js_add (Fin ex) (Math_min (Fin de) mc))
          rate DEFAULT_TERM_YEARS,
      ltvPercent =
        (if 0 < hv then js_mul (js_div (js_add (Fin ex) (Math_min (Fin de) mc)) (Fin hv)) (Fin 100)
         else Fin 0),
      wasCapped = js_gt (Fin de) mc \<rparr>"
  unfolding CashOutCalculator_def Let_def CashOut_clamp_copy Purchase_clamp_eq
    hv_def ex_def de_def mc_def
  by (simp add: js_cmp_Fin)

lemma maxCashOut_class:
  assumes "0 \<le> hv"
  shows "nonneg_num (Math_max (Fin 0) (js_sub (js_mul (Fin hv) MAX_LTV) (Fin ex)))"
proof -
  have "nonneg_num (js_mul (Fin hv) MAX_LTV)"
    unfolding MAX_LTV_eq using assms by (simp add: round64_nonneg)
  then have "js_sub (js_mul (Fin hv) MAX_LTV) (Fin ex) \<noteq> NaN" by (rule js_sub_Fin_not_NaN)
  then show ?thesis by (rule Math_max_0_nonneg)
qed

lemma zero_desired:
  assumes "0 \<le> hv"
  shows "Math_min (Fin 0) (Math_max (Fin 0) (js_sub (js_mul (Fin hv) MAX_LTV) (Fin ex))) = Fin 0"
  using maxCashOut_class [OF assms, of ex]
  by (cases "Math_max (Fin 0) (js_sub (js_mul (Fin hv) MAX_LTV) (Fin ex))") auto

lemma capped_class:
  assumes "nonneg_num mc" "0 \<le> de"
  shows "(if js_le (Fin de) mc then \<not> js_gt (Fin de) mc \<and> Math_min (Fin de) mc = Fin de
          else js_gt (Fin de) mc \<and> Math_min (Fin de) mc = mc) \<and>
         (\<exists>c. Math_min (Fin de) mc = Fin c \<and> 0 \<le> c)"
  using assms by (cases mc) (auto simp: js_le_def js_gt_def)

section \<open>Lemmas on the refinance and the buydown calculators\<close>



section \<open>The copies of the payment function\<close>

text \<open>
  C9. The per-file copies of the payment function (in the purchase, cash-out, rate-buydown
  and refinance calculators, and \<open>calculateMonthlyPayment\<close> in the rent-versus-buy
  calculator) return the same result on every input, so every calculator in effect calls
  one amortization function.
\<close>

theorem payment_copies_equal:
  "CashOut_calculateMonthlyPrincipalAndInterest pw p a t =
     Purchase_calculateMonthlyPrincipalAndInterest pw p a t \<and>
   RateBuydown_calculateMonthlyPrincipalAndInterest pw p a t =
     Purchase_calculateMonthlyPrincipalAndInterest pw p a t \<and>
   Refinance_calculateMonthlyPrincipalAndInterest pw p a t =
     Purchase_calculateMonthlyPrincipalAndInterest pw p a t \<and>
   RentVsBuy_calculateMonthlyPayment pw p a t =
     Purchase_calculateMonthlyPrincipalAndInterest pw p a t"
  by (simp add: CashOut_payment_copy RateBuydown_payment_copy Refinance_payment_copy
      RentVsBuy_payment_copy)

section \<open>The reverse mortgage availability\<close>

text \<open>
  C3. The availability percentage is 0 at age 61, 0.35 at 62, 0.40 at 69, 0.45 at 70 (the
  jump from 69 to 70 is kept) and 0.60 at 95 and at 150 (the age is capped), each of these
  the binary64 value of the decimal; and for every age below 62 the gross and the net
  principal limit are both 0, whatever the home value and the mortgage balance.
\<close>

theorem reverse_mortgage_availability:
  "estimatedAvailabilityPct (Fin 61) = Fin 0 \<and>
   estimatedAvailabilityPct (Fin 62) = round64 0.35 \<and>
   estimatedAvailabilityPct (Fin 69) = round64 0.40 \<and>
   estimatedAvailabilityPct (Fin 70) = round64 0.45 \<and>
   estimatedAvailabilityPct (Fin 95) = round64 0.60 \<and>
   estimatedAvailabilityPct (Fin 150) = round64 0.60 \<and>
   (finiteOrZero age < 62 \<longrightarrow>
      grossPrincipalLimit (ReverseMortgageCalculator age homeValue balance) = Fin 0 \<and>
      netPrincipalLimit (ReverseMortgageCalculator age homeValue balance) = Fin 0 \<and>
      \<not> ageEligible (ReverseMortgageCalculator age homeValue balance))"
proof -
  have e0: "round64 (225179981368525 / 4503599627370496) = Fin (225179981368525 / 4503599627370496)"
    by (subst round64_eval_pos [where e = "- 5"]) (simp_all add: rne_eval Let_def)
  have e1: "round64 (3152519739159347 / 9007199254740992) = Fin (3152519739159347 / 9007199254740992)"
    by (subst round64_eval_pos [where e = "- 2"]) (simp_all add: rne_eval Let_def)
  have e2: "round64 (3602879701896397 / 9007199254740992) = Fin (3602879701896397 / 9007199254740992)"
    by (subst round64_eval_pos [where e = "- 2"]) (simp_all add: rne_eval Let_def)
  have e3: "round64 (900719925474099 / 18014398509481984) = Fin (900719925474099 / 18014398509481984)"
    by (subst round64_eval_pos [where e = "- 5"]) (simp_all add: rne_eval Let_def)
  have e4: "round64 (8106479329266893 / 18014398509481984) = Fin (8106479329266893 / 18014398509481984)"
    by (subst round64_eval_pos [where e = "- 2"]) (simp_all add: rne_eval Let_def)
  have e5: "round64 (1 / 2) = Fin (1 / 2)"
    by (subst round64_eval_pos [where e = "- 1"]) (simp_all add: rne_eval Let_def)
  have e6: "round64 (450359962737049 / 9007199254740992) = Fin (450359962737049 / 9007199254740992)"
    by (subst round64_eval_pos [where e = "- 5"]) (simp_all add: rne_eval Let_def)
  have e7: "round64 (2476979795053773 / 4503599627370496) = Fin (2476979795053773 / 4503599627370496)"
    by (subst round64_eval_pos [where e = "- 1"]) (simp_all add: rne_eval Let_def)
  have e8: "round64 (5404319552844595 / 9007199254740992) = Fin (5404319552844595 / 9007199254740992)"
    by (subst round64_eval_pos [where e = "- 1"]) (simp_all add: rne_eval Let_def)
  note lits = lit_0_35 lit_0_4 lit_0_45 lit_0_55 lit_0_6
  note evals = e0 e1 e2 e3 e4 e5 e6 e7 e8
  have spot: "estimatedAvailabilityPct (Fin 61) = Fin 0"
    "estimatedAvailabilityPct (Fin 62) = round64 0.35"
    "estimatedAvailabilityPct (Fin 69) = round64 0.40"
    "estimatedAvailabilityPct (Fin 70) = round64 0.45"
    "estimatedAvailabilityPct (Fin 95) = round64 0.60"
    "estimatedAvailabilityPct (Fin 150) = round64 0.60"
    by (simp_all add: estimatedAvailabilityPct_def clamp_def Let_def js_le_def js_sub_def
        round64_numeral lits evals)
  have low: "estimatedAvailabilityPct (Fin (max 0 a)) = Fin 0" if "a < 62" for a :: real
    using that by (simp add: estimatedAvailabilityPct_def clamp_def Let_def Math_max_Fin
        Math_min_Fin del: Math_max.simps Math_min.simps)
  have neg: "Math_max (Fin 0) (round64 (- b)) = Fin 0" if "0 \<le> b" for b :: real
    using round64_nonneg [OF that] by (cases "round64 b") (simp_all add: round64_minus)
  have "grossPrincipalLimit (ReverseMortgageCalculator age homeValue balance) = Fin 0 \<and>
      netPrincipalLimit (ReverseMortgageCalculator age homeValue balance) = Fin 0 \<and>
      \<not> ageEligible (ReverseMortgageCalculator age homeValue balance)"
    if "finiteOrZero age < 62"
    using that low [OF that]
    unfolding ReverseMortgageCalculator_def Let_def ReverseMortgage_clamp_copy Purchase_clamp_eq
    by (simp add: js_cmp_Fin js_sub_def neg)
  with spot show ?thesis by blast
qed

theorem reverse_mortgage_availability_witness:
  "finiteOrZero (Fin 61) < 62 \<and>
   grossPrincipalLimit (ReverseMortgageCalculator (Fin 61) (Fin 500000) (Fin 150000)) = Fin 0 \<and>
   netPrincipalLimit (ReverseMortgageCalculator (Fin 61) (Fin 500000) (Fin 150000)) = Fin 0 \<and>
   \<not> ageEligible (ReverseMortgageCalculator (Fin 61) (Fin 500000) (Fin 150000))"
  using reverse_mortgage_availability [of "Fin 61" "Fin 500000" "Fin 150000"] by simp

section \<open>The rent-versus-buy projection: its points and the crossover year\<close>

lemma month_loop_keeps:
  "points (month_loop pay r m st) = points st \<and>
   firstCrossover (month_loop pay r m st) = firstCrossover st \<and>
   cumulativeRentCost (month_loop pay r m st) = cumulativeRentCost st"
proof (induction pay r m st rule: month_loop.induct)
  case (1 pay r m st)
  show ?case
  proof (cases "m < 12 \<and> \<not> js_le (remainingBalance st) (Fin 0)")
    case True
    then show ?thesis
      using "1.IH" by (subst (1 2 3) month_loop.simps) (simp add: Let_def)
  next
    case False
    then show ?thesis
      by (subst (1 2 3) month_loop.simps) auto
  qed
qed

text \<open>One year appends one point, for that year, and records the year as the crossover
  if none is recorded yet and the point crosses.\<close>

lemma year_body_step:
  "\<exists>p. year p = y \<and>
       points (year_body pw price0 rent0 rentInfl appr down pay r y st) = points st @ [p] \<and>
       firstCrossover (year_body pw price0 rent0 rentInfl appr down pay r y st) =
         (if firstCrossover st = None \<and> crosses p then Some y else firstCrossover st)"
  unfolding year_body_def Let_def crosses_def
  by (simp add: month_loop_keeps)

lemma find_snoc:
  "find P (xs @ [x]) = (case find P xs of Some y \<Rightarrow> Some y | None \<Rightarrow> if P x then Some x else None)"
  by (induction xs) auto

lemma year_body_inv:
  assumes "crossover_inv st"
  shows "crossover_inv (year_body pw price0 rent0 rentInfl appr down pay r y st)"
proof -
  obtain p where p: "year p = y"
    "points (year_body pw price0 rent0 rentInfl appr down pay r y st) = points st @ [p]"
    "firstCrossover (year_body pw price0 rent0 rentInfl appr down pay r y st) =
       (if firstCrossover st = None \<and> crosses p then Some y else firstCrossover st)"
    using year_body_step by blast
  show ?thesis
    using assms unfolding crossover_inv_def p(2,3)
    by (auto simp: find_snoc p(1) split: option.splits)
qed

lemma fold_year_body:
  "map year (points (fold (year_body pw price0 rent0 rentInfl appr down pay r) ys st)) =
     map year (points st) @ ys \<and>
   (crossover_inv st \<longrightarrow>
      crossover_inv (fold (year_body pw price0 rent0 rentInfl appr down pay r) ys st))"
proof (induction ys arbitrary: st)
  case Nil
  then show ?case by simp
next
  case (Cons y ys)
  obtain p where p: "year p = y"
    "points (year_body pw price0 rent0 rentInfl appr down pay r y st) = points st @ [p]"
    using year_body_step by blast
  show ?case
    using Cons.IH [of "year_body pw price0 rent0 rentInfl appr down pay r y st"] p
    by (simp add: year_body_inv)
qed

text \<open>The outer loop returns, after the years from \<open>year'\<close> to \<open>N\<close>, when its test holds
  exactly up to \<open>N\<close>.\<close>

lemma year_loop_fold:
  assumes "\<And>k. js_le (Fin (real k)) years = (k \<le> N)"
  shows "year_loop years body k st = Some (fold body [k..<Suc N] st)"
proof (induction "Suc N - k" arbitrary: k st)
  case 0
  then have "\<not> k \<le> N" by simp
  then show ?case
    by (subst year_loop.simps) (simp add: assms)
next
  case (Suc n)
  then have le: "k \<le> N" and n: "n = Suc N - Suc k" by simp_all
  have "year_loop years body k st = year_loop years body (Suc k) (body k st)"
    by (subst year_loop.simps) (simp add: assms le)
  also have "\<dots> = Some (fold body [Suc k..<Suc N] (body k st))"
    using Suc.hyps(1) [OF n] .
  also have "fold body [Suc k..<Suc N] (body k st) = fold body [k..<Suc N] st"
  proof -
    from le have "[k..<Suc N] = k # [Suc k..<Suc N]" by (simp only: upt_conv_Cons less_Suc_eq_le)
    then show ?thesis by simp
  qed
  finally show ?case .
qed

lemma years_clamped:
  "Math_min (Fin 50) (Math_max (Fin 1) (Math_round (Fin d))) =
     Fin (of_int (min 50 (max 1 (round d))))"
proof -
  have "Math_round (Fin d) = Fin (of_int (round d))" by (simp add: round_def)
  moreover have "real_of_int (min 50 (max 1 (round d))) = min 50 (max 1 (of_int (round d)))"
    by (simp add: min_def max_def)
  ultimately show ?thesis
    by (simp only: Math_max_Fin Math_min_Fin min.commute)
qed

lemma loop_test_iff:
  assumes "0 \<le> n"
  shows "js_le (Fin (real k)) (Fin (of_int n)) = (k \<le> nat n)"
proof -
  have "real k = of_int (int k)" by simp
  then have "(real k \<le> of_int n) = (int k \<le> n)" by (simp only: of_int_le_iff)
  with assms show ?thesis by (auto simp: js_cmp_Fin)
qed

lemma RentVsBuy_run:
  fixes d :: real
  defines "N \<equiv> nat (min 50 (max 1 (round d)))"
  shows "\<exists>res. RentVsBuyCalculator pw price rent infl appr (Fin d) = Some res \<and>
           map year (data res) = [1..<Suc N] \<and>
           crossoverYear res = map_option year (find crosses (data res))"
proof -
  define body where "body = year_body pw (RentVsBuy_clampNonNegative price)
      (RentVsBuy_clampNonNegative rent)
      (js_div (RentVsBuy_clampNonNegative infl) (Fin 100))
      (js_div (RentVsBuy_clampNonNegative appr) (Fin 100))
      (js_mul (RentVsBuy_clampNonNegative price) ASSUMED_DOWN_PCT)
      (RentVsBuy_calculateMonthlyPayment pw
         (Math_max (Fin 0) (js_sub (RentVsBuy_clampNonNegative price)
            (js_mul (RentVsBuy_clampNonNegative price) ASSUMED_DOWN_PCT)))
         ASSUMED_RATE_PCT ASSUMED_TERM_YEARS)
      (js_div (js_div ASSUMED_RATE_PCT (Fin 100)) (Fin 12))"
  define init where "init = \<lparr> remainingBalance =
        Math_max (Fin 0) (js_sub (RentVsBuy_clampNonNegative price)
            (js_mul (RentVsBuy_clampNonNegative price) ASSUMED_DOWN_PCT)),
      cumulativePrincipalPaid = Fin 0, cumulativeRentCost = Fin 0,
      cumulativeMortgagePaid = Fin 0, cumulativeTaxPaid = Fin 0,
      cumulativeMaintenancePaid = Fin 0, points = [], firstCrossover = None \<rparr>"
  define final where "final = fold body [1..<Suc N] init"
  have n0: "(0::int) \<le> min 50 (max 1 (round d))" by simp
  have loop: "year_loop (Fin (of_int (min 50 (max 1 (round d))))) body 1 init = Some final"
    unfolding final_def N_def
    by (rule year_loop_fold) (rule loop_test_iff [OF n0])
  have inv0: "crossover_inv init" by (simp add: crossover_inv_def init_def)
  have pts0: "points init = []" by (simp add: init_def)
  have ys: "map year (points final) = [1..<Suc N]"
    using fold_year_body [of _ _ _ _ _ _ _ _ "[1..<Suc N]" init]
    unfolding final_def body_def pts0 by simp
  have inv: "crossover_inv final"
    using fold_year_body [of _ _ _ _ _ _ _ _ "[1..<Suc N]" init] inv0
    unfolding final_def body_def by blast
  have "RentVsBuyCalculator pw price rent infl appr (Fin d) =
      Some \<lparr> data = points final, crossoverYear = firstCrossover final,
             summary = \<lparr> finalRentCost =
                           (case points final of [] \<Rightarrow> Fin 0 | _ \<Rightarrow> rentCost (last (points final))),
                         finalBuyNetCost =
                           (case points final of [] \<Rightarrow> Fin 0
                            | _ \<Rightarrow> buyNetCost (last (points final))),
                         downPayment = js_mul (RentVsBuy_clampNonNegative price) ASSUMED_DOWN_PCT,
                         loanAmount = Math_max (Fin 0) (js_sub (RentVsBuy_clampNonNegative price)
                            (js_mul (RentVsBuy_clampNonNegative price) ASSUMED_DOWN_PCT)),
                         monthlyMortgagePayment = RentVsBuy_calculateMonthlyPayment pw
                           (Math_max (Fin 0) (js_sub (RentVsBuy_clampNonNegative price)
                              (js_mul (RentVsBuy_clampNonNegative price) ASSUMED_DOWN_PCT)))
                           ASSUMED_RATE_PCT ASSUMED_TERM_YEARS \<rparr> \<rparr>"
    unfolding RentVsBuyCalculator_def Let_def years_clamped
      body_def [symmetric] init_def [symmetric] loop
    by simp
  with ys inv show ?thesis
    by (simp add: crossover_inv_def)
qed

text \<open>
  C4. For every rent-versus-buy input, the projection has exactly
  \<open>clamp(round(durationYears), 1, 50)\<close> points, their \<open>year\<close> fields being 1, 2, ..., N in
  this order; the crossover year, when not null, is a year of the range whose net buy cost
  is at most that year's cumulative rent cost, no earlier year being so; and it is null
  exactly when no year of the range is so.
\<close>

theorem rent_vs_buy_projection:
  "\<exists>res. RentVsBuyCalculator pw price rent infl appr (Fin d) = Some res \<and>
     length (data res) = nat (min 50 (max 1 (round d))) \<and>
     map year (data res) = [1..<Suc (nat (min 50 (max 1 (round d))))] \<and>
     (case crossoverYear res of
        None \<Rightarrow> \<forall>p \<in> set (data res). \<not> crosses p
      | Some y \<Rightarrow>
          (\<exists>p \<in> set (data res). year p = y \<and> crosses p) \<and>
          (\<forall>q \<in> set (data res). year q < y \<longrightarrow> \<not> crosses q))"
proof -
  define N where "N = nat (min 50 (max 1 (round d)))"
  obtain res where run: "RentVsBuyCalculator pw price rent infl appr (Fin d) = Some res"
    and ys: "map year (data res) = [1..<Suc N]"
    and cross: "crossoverYear res = map_option year (find crosses (data res))"
    using RentVsBuy_run [of pw price rent infl appr d] unfolding N_def by blast
  from ys have len: "length (data res) = N"
    by (metis length_map length_upt diff_Suc_1)
  have yr: "year (data res ! i) = Suc i" if "i < N" for i
  proof -
    from that len have "year (data res ! i) = map year (data res) ! i" by simp
    also have "\<dots> = Suc i" unfolding ys using that by (simp del: upt_Suc)
    finally show ?thesis .
  qed
  have "case crossoverYear res of
        None \<Rightarrow> \<forall>p \<in> set (data res). \<not> crosses p
      | Some y \<Rightarrow>
          (\<exists>p \<in> set (data res). year p = y \<and> crosses p) \<and>
          (\<forall>q \<in> set (data res). year q < y \<longrightarrow> \<not> crosses q)"
  proof (cases "find crosses (data res)")
    case None
    then have "\<forall>p \<in> set (data res). \<not> crosses p"
      by (auto simp: find_None_iff)
    then show ?thesis
      unfolding cross None by simp
  next
    case (Some p)
    then obtain i where i: "i < length (data res)" "crosses (data res ! i)" "p = data res ! i"
      and before: "\<forall>j<i. \<not> crosses (data res ! j)"
      unfolding find_Some_iff by blast
    have mem: "p \<in> set (data res)" using i by simp
    have yp: "year p = Suc i" using i len yr by simp
    have early: "\<not> crosses q" if q: "q \<in> set (data res)" "year q < year p" for q
    proof -
      from q(1) obtain j where j: "j < length (data res)" "q = data res ! j"
        by (auto simp: in_set_conv_nth)
      with len yr have "year q = Suc j" by simp
      with q(2) yp have "j < i" by simp
      with before j show ?thesis by simp
    qed
    show ?thesis
      unfolding cross Some using mem i(2,3) early by auto
  qed
  with run len ys show ?thesis unfolding N_def by blast
qed

theorem rent_vs_buy_projection_witness:
  "\<exists>res. RentVsBuyCalculator pow_rounded (Fin 0) (Fin 1000) (Fin 0) (Fin 0) (Fin 2) = Some res \<and>
     map year (data res) = [1, 2] \<and>
     map rentCost (data res) = [Fin 12000, Fin 24000] \<and>
     map buyNetCost (data res) = [Fin 0, Fin 0] \<and>
     crossoverYear res = Some 1"
proof -
  have ev: "RentVsBuyCalculator pow_rounded (Fin 0) (Fin 1000) (Fin 0) (Fin 0) (Fin 2) =
    Some \<lparr> data = [\<lparr> year = 1, rentCost = Fin 12000, buyNetCost = Fin 0 \<rparr>,
                   \<lparr> year = 2, rentCost = Fin 24000, buyNetCost = Fin 0 \<rparr>],
           crossoverYear = Some 1,
           summary = \<lparr> finalRentCost = Fin 24000, finalBuyNetCost = Fin 0,
                       downPayment = Fin 0, loanAmount = Fin 0,
                       monthlyMortgagePayment = Fin 0 \<rparr> \<rparr>"
    by (simp add: RentVsBuyCalculator_def RentVsBuy_clampNonNegative_def
        RentVsBuy_calculateMonthlyPayment_def Let_def year_loop.simps year_body_def
        month_loop.simps js_le_def js_sub_def pow_rounded_def round64_numeral
        ASSUMED_DOWN_PCT_def ASSUMED_RATE_PCT_def ASSUMED_TERM_YEARS_def
        ASSUMED_TAX_PCT_def ASSUMED_MAINT_PCT_def lit_0_2 lit_0_01)
  show ?thesis
    using rent_vs_buy_projection [of pow_rounded "Fin 0" "Fin 1000" "Fin 0" "Fin 0" 2] ev
    by simp
qed

section \<open>The monthly payment: its branches\<close>

text \<open>
  C1. For all inputs, the monthly payment function clamps the principal and the term to
  \<open>max(0, x)\<close>, a non-finite value counting as 0, takes \<open>n = round(termYears * 12)\<close>,
  returns 0 if the clamped principal or \<open>n\<close> is 0, returns \<open>principal / n\<close> if the clamped
  monthly rate \<open>r = (annualRatePercent / 100) / 12\<close> is 0, and otherwise returns
  \<open>principal * r * (1 + r)^n / ((1 + r)^n - 1)\<close>; every operation is the binary64 one.
\<close>

theorem monthly_payment_branches:
  "Purchase_calculateMonthlyPrincipalAndInterest pw p a t =
     (let P = max 0 (finiteOrZero p);
          years = max 0 (finiteOrZero t);
          n = Math_round (js_mul (Fin years) (Fin 12));
          r = js_div (js_div (Fin (max 0 (finiteOrZero a))) (Fin 100)) (Fin 12);
          pow = Math_pow pw (js_add (Fin 1) r) n
      in if P = 0 \<or> n = Fin 0 then Fin 0
         else if r = Fin 0 then js_div (Fin P) n
         else js_div (js_mul (js_mul (Fin P) r) pow) (js_sub pow (Fin 1)))"
  by (rule Purchase_payment_unfold)

text \<open>The products are rounded: twelve times the binary64 value next below 5.5 / 12 is
  5.5, which \<open>Math.round\<close> takes to 6 periods.\<close>

theorem monthly_payment_branches_witness:
  "js_mul (Fin (8256599316845909 / 18014398509481984)) (Fin 12) = Fin (11 / 2) \<and>
   Purchase_calculateMonthlyPrincipalAndInterest pow_rounded (Fin 1200) (Fin 0)
     (Fin (8256599316845909 / 18014398509481984)) = Fin 200"
proof -
  have e0: "round64 (24769797950537727 / 4503599627370496) = Fin (11 / 2)"
    by (subst round64_eval_pos [where e = "2"]) (simp_all add: rne_eval Let_def)
  show ?thesis
    using monthly_payment_branches [of pow_rounded "Fin 1200" "Fin 0" "Fin (8256599316845909 / 18014398509481984)"]
    by (simp add: Let_def e0 round64_numeral)
qed

section \<open>The monthly payment: what it returns\<close>

text \<open>
  C2, as stated: the function returns a non-negative number on every input, the divisor
  \<open>(1 + r)^n - 1\<close> being nonzero wherever the annuity branch is taken, since \<open>r > 0\<close>
  and \<open>n >= 1\<close> there. In binary64 it fails: at the rate 1e-14 and a term of one month,
  \<open>r > 0\<close> and \<open>n = 1\<close>, but \<open>1 + r\<close> rounds to 1, the divisor is 0 and the result is
  \<open>+\<infinity>\<close>; and at the rate 1200 over 100 years the power overflows and the result is
  \<open>NaN\<close>.
\<close>

theorem monthly_payment_total_counterexample:
  "js_gt (js_div (js_div (Purchase_clampNonNegative (round64 (1 / 10 ^ 14))) (Fin 100)) (Fin 12))
     (Fin 0) \<and>
   js_ge (Math_round (js_mul (Purchase_clampNonNegative (round64 (1 / 12))) (Fin 12)))
     (Fin 1) \<and>
   js_sub (Math_pow pow_rounded
             (js_add (Fin 1)
                (js_div (js_div (Purchase_clampNonNegative (round64 (1 / 10 ^ 14))) (Fin 100)) (Fin 12)))
             (Math_round (js_mul (Purchase_clampNonNegative (round64 (1 / 12))) (Fin 12))))
     (Fin 1) = Fin 0 \<and>
   Purchase_calculateMonthlyPrincipalAndInterest pow_rounded (Fin 1200) (round64 (1 / 10 ^ 14))
     (round64 (1 / 12)) = PInf \<and>
   Purchase_calculateMonthlyPrincipalAndInterest pow_rounded (Fin 1) (Fin 1200) (Fin 100) = NaN"
proof -
  have e0: "round64 (1 / 12) = Fin (6004799503160661 / 72057594037927936)"
    by (subst round64_eval_pos [where e = "- 4"]) (simp_all add: rne_eval Let_def)
  have e1: "round64 (1 / 100000000000000) =
      Fin (6338253001141147 / 633825300114114700748351602688)"
    by (subst round64_eval_pos [where e = "- 47"]) (simp_all add: rne_eval Let_def)
  have e2: "round64 (18014398509481983 / 18014398509481984) = Fin 1"
    by (subst round64_eval_pos [where e = "- 1"]) (simp_all add: rne_eval Let_def)
  have e3: "round64 (6338253001141147 / 63382530011411470074835160268800) =
      Fin (2028240960365167 / 20282409603651670423947251286016)"
    by (subst round64_eval_pos [where e = "- 54"]) (simp_all add: rne_eval Let_def)
  have e4: "round64 (2028240960365167 / 243388915243820045087367015432192) =
      Fin (5408642560973779 / 649037107316853453566312041152512)"
    by (subst round64_eval_pos [where e = "- 57"]) (simp_all add: rne_eval Let_def)
  have e5: "round64 (649037107316853458974954602126291 / 649037107316853453566312041152512) =
      Fin 1"
    by (subst round64_eval_pos [where e = "0"]) (simp_all add: rne_eval Let_def)
  have e6: "round64 (405648192073033425 / 40564819207303340847894502572032) =
      Fin (6338253001141147 / 633825300114114700748351602688)"
    by (subst round64_eval_pos [where e = "- 47"]) (simp_all add: rne_eval Let_def)
  have e7: "round64 (6338253001141147 / 633825300114114700748351602688) =
      Fin (6338253001141147 / 633825300114114700748351602688)"
    by (subst round64_eval_pos [where e = "- 47"]) (simp_all add: rne_eval Let_def)
  show ?thesis
    by (simp add: Purchase_calculateMonthlyPrincipalAndInterest_def Purchase_clampNonNegative_def
        Let_def js_sub_def js_gt_def js_ge_def js_le_def signed_inf_def pow_rounded_def
        round64_numeral round64_overflow e0 e1 e2 e3 e4 e5 e6 e7)
qed

text \<open>
  C2, amended: the function is total and raises no error; on every input it returns a
  non-negative finite number, \<open>+\<infinity>\<close> or \<open>NaN\<close>, never a number below zero; and its
  result is the one it gives on the clamped inputs, so a negative or non-finite input acts
  as 0. This holds for every host power that is at least 1 at a base and an exponent of at
  least 1.
\<close>

theorem monthly_payment_total:
  "pow_ge_one pw \<Longrightarrow>
   (Purchase_calculateMonthlyPrincipalAndInterest pw p a t = NaN \<or>
    Purchase_calculateMonthlyPrincipalAndInterest pw p a t = PInf \<or>
    (\<exists>v. Purchase_calculateMonthlyPrincipalAndInterest pw p a t = Fin v \<and> 0 \<le> v)) \<and>
   Purchase_calculateMonthlyPrincipalAndInterest pw p a t =
     Purchase_calculateMonthlyPrincipalAndInterest pw
       (Fin (max 0 (finiteOrZero p))) (Fin (max 0 (finiteOrZero a)))
       (Fin (max 0 (finiteOrZero t)))"
  using Purchase_payment_not_negative [of pw p a t] Purchase_payment_clamped [of pw p a t]
  by (simp add: not_negative_cases)

theorem monthly_payment_total_witness:
  "pow_ge_one pow_rounded \<and>
   Purchase_calculateMonthlyPrincipalAndInterest pow_rounded (Fin 1200) (Fin 12) (round64 (1 / 12)) =
     Fin (1332608092864511 / 1099511627776) \<and>
   Purchase_calculateMonthlyPrincipalAndInterest pow_rounded (Fin (- 5)) (Fin 12) (round64 (1 / 12)) =
     Fin 0"
proof -
  have e0: "round64 (1 / 12) = Fin (6004799503160661 / 72057594037927936)"
    by (subst round64_eval_pos [where e = "- 4"]) (simp_all add: rne_eval Let_def)
  have e1: "round64 (18014398509481983 / 18014398509481984) = Fin 1"
    by (subst round64_eval_pos [where e = "- 1"]) (simp_all add: rne_eval Let_def)
  have e2: "round64 (3 / 25) = Fin (1080863910568919 / 9007199254740992)"
    by (subst round64_eval_pos [where e = "- 4"]) (simp_all add: rne_eval Let_def)
  have e3: "round64 (1080863910568919 / 108086391056891904) =
      Fin (5764607523034235 / 576460752303423488)"
    by (subst round64_eval_pos [where e = "- 7"]) (simp_all add: rne_eval Let_def)
  have e4: "round64 (582225359826457723 / 576460752303423488) =
      Fin (4548635623644201 / 4503599627370496)"
    by (subst round64_eval_pos [where e = "0"]) (simp_all add: rne_eval Let_def)
  have e5: "round64 (4548635623644201 / 4503599627370496) =
      Fin (4548635623644201 / 4503599627370496)"
    by (subst round64_eval_pos [where e = "0"]) (simp_all add: rne_eval Let_def)
  have e6: "round64 (432345564227567625 / 36028797018963968) = Fin 12"
    by (subst round64_eval_pos [where e = "3"]) (simp_all add: rne_eval Let_def)
  have e7: "round64 (13645906870932603 / 1125899906842624) =
      Fin (3411476717733151 / 281474976710656)"
    by (subst round64_eval_pos [where e = "3"]) (simp_all add: rne_eval Let_def)
  have e8: "round64 (45035996273705 / 4503599627370496) =
      Fin (45035996273705 / 4503599627370496)"
    by (subst round64_eval_pos [where e = "- 7"]) (simp_all add: rne_eval Let_def)
  have e9: "round64 (54583627483730416 / 45035996273705) =
      Fin (1332608092864511 / 1099511627776)"
    by (subst round64_eval_pos [where e = "10"]) (simp_all add: rne_eval Let_def)
  have "Purchase_calculateMonthlyPrincipalAndInterest pow_rounded (Fin 1200) (Fin 12) (round64 (1 / 12)) =
     Fin (1332608092864511 / 1099511627776)"
    by (simp add: Purchase_calculateMonthlyPrincipalAndInterest_def Purchase_clampNonNegative_def
        Let_def js_sub_def signed_inf_def pow_rounded_def round64_numeral round64_overflow round64_minus
        e0 e1 e2 e3 e4 e5 e6 e7 e8 e9)
  moreover have "Purchase_calculateMonthlyPrincipalAndInterest pow_rounded (Fin (- 5)) (Fin 12) (round64 (1 / 12)) = Fin 0"
    by (simp add: Purchase_calculateMonthlyPrincipalAndInterest_def Purchase_clampNonNegative_def Let_def e0)
  ultimately show ?thesis
    using monthly_payment_total [OF pow_rounded_ge_one, of "Fin 1200" "Fin 12" "round64 (1 / 12)"]
      pow_rounded_ge_one
    by simp
qed

section \<open>The monthly payment at a zero rate\<close>

text \<open>
  C8, as stated: for all \<open>principal >= 0\<close> and \<open>term > 0\<close> the payment at zero rate is
  \<open>principal / round(term * 12)\<close>. It fails for a small positive term: the number of
  periods rounds to 0, the source returns 0, and the quotient is a division by zero.
\<close>

theorem zero_rate_payment_counterexample:
  "round64 (1 / 100) = Fin (5764607523034235 / 576460752303423488) \<and>
   Purchase_calculateMonthlyPrincipalAndInterest pow_rounded (Fin 100) (Fin 0) (round64 (1 / 100)) = Fin 0 \<and>
   js_div (Fin 100) (Math_round (js_mul (round64 (1 / 100)) (Fin 12))) = PInf"
proof -
  have e0: "round64 (1 / 100) = Fin (5764607523034235 / 576460752303423488)"
    by (subst round64_eval_pos [where e = "- 7"]) (simp_all add: rne_eval Let_def)
  have e1: "round64 (17293822569102705 / 144115188075855872) =
      Fin (1080863910568919 / 9007199254740992)"
    by (subst round64_eval_pos [where e = "- 4"]) (simp_all add: rne_eval Let_def)
  show ?thesis
    by (simp add: Purchase_calculateMonthlyPrincipalAndInterest_def Purchase_clampNonNegative_def
        Let_def signed_inf_def e0 e1)
qed

text \<open>
  C8, amended: for all \<open>principal >= 0\<close> and \<open>term > 0\<close> the payment at zero rate is
  \<open>principal / n\<close> with \<open>n = round(term * 12)\<close> when \<open>n\<close> is not 0, and 0 when it is; the
  product and the quotient are the binary64 ones.
\<close>

theorem zero_rate_payment:
  assumes "0 \<le> p" "0 < t"
  shows "Purchase_calculateMonthlyPrincipalAndInterest pw (Fin p) (Fin 0) (Fin t) =
     (let n = Math_round (js_mul (Fin t) (Fin 12))
      in if n = Fin 0 then Fin 0 else js_div (Fin p) n)"
proof -
  define n where "n = Math_round (js_mul (Fin t) (Fin 12))"
  have nc: "n = PInf \<or> (\<exists>k. n = Fin (of_int k) \<and> 0 \<le> k)"
    unfolding n_def using assms(2) by (intro periods_class) simp
  have zero: "js_div (Fin 0) n = Fin 0" if "n \<noteq> Fin 0"
  proof (cases "n = PInf")
    case True
    then show ?thesis by simp
  next
    case False
    with nc obtain k :: int where k: "n = Fin (of_int k)" by blast
    with that have "real_of_int k \<noteq> 0" by auto
    with k show ?thesis by simp
  qed
  have "Purchase_calculateMonthlyPrincipalAndInterest pw (Fin p) (Fin 0) (Fin t) =
      (if p = 0 \<or> n = Fin 0 then Fin 0 else js_div (Fin p) n)"
    unfolding Purchase_payment_unfold Let_def n_def using assms by (simp add: max_def)
  also have "\<dots> = (if n = Fin 0 then Fin 0 else js_div (Fin p) n)"
    using zero by auto
  finally show ?thesis unfolding n_def Let_def .
qed

text \<open>Twelve times the binary64 value of 1/24 rounds to 1/2, a tie that \<open>Math.round\<close>
  takes to one period.\<close>

theorem zero_rate_payment_witness:
  "(0::real) \<le> 1200 \<and>
   round64 (1 / 24) = Fin (6004799503160661 / 144115188075855872) \<and>
   (0::real) < 6004799503160661 / 144115188075855872 \<and>
   Purchase_calculateMonthlyPrincipalAndInterest pow_rounded (Fin 1200) (Fin 0) (round64 (1 / 24)) =
     Fin 1200 \<and>
   Purchase_calculateMonthlyPrincipalAndInterest pow_rounded (Fin 1200) (Fin 0)
     (Fin (8256599316845909 / 18014398509481984)) = Fin 200"
proof -
  have e0: "round64 (1 / 24) = Fin (6004799503160661 / 144115188075855872)"
    by (subst round64_eval_pos [where e = "- 5"]) (simp_all add: rne_eval Let_def)
  have e1: "round64 (18014398509481983 / 36028797018963968) = Fin (1 / 2)"
    by (subst round64_eval_pos [where e = "- 2"]) (simp_all add: rne_eval Let_def)
  have e2: "round64 (24769797950537727 / 4503599627370496) = Fin (11 / 2)"
    by (subst round64_eval_pos [where e = "2"]) (simp_all add: rne_eval Let_def)
  have a: "(0::real) \<le> 1200" and b: "(0::real) < 6004799503160661 / 144115188075855872"
    and c: "(0::real) < 8256599316845909 / 18014398509481984" by simp_all
  show ?thesis
    using zero_rate_payment [OF a b, of pow_rounded] zero_rate_payment [OF a c, of pow_rounded]
    by (simp add: Let_def round64_numeral e0 e1 e2)
qed

section \<open>The cash-out refinance: capping and loan-to-value\<close>

text \<open>
  C5. For every cash-out input, clamped non-negative, with \<open>maxLoan = homeValue * 0.80\<close>
  and \<open>maxCashOut = max(0, maxLoan - existingBalance)\<close>: if
  \<open>desiredCashOut <= maxCashOut\<close> then \<open>wasCapped\<close> is false and the actual cash-out is the
  desired one; otherwise the actual cash-out is \<open>maxCashOut\<close> and \<open>wasCapped\<close> is true; and
  the new loan amount is the existing balance plus the actual cash-out. The product, the
  difference and the sum are the binary64 ones.
\<close>

theorem cash_out_capping:
  "(let homeValue = max 0 (finiteOrZero h);
        existingBalance = max 0 (finiteOrZero e);
        desiredCashOut = max 0 (finiteOrZero d);
        maxLoan = js_mul (Fin homeValue) (round64 0.80);
        maxCashOut = Math_max (Fin 0) (js_sub maxLoan (Fin existingBalance));
        res = CashOutCalculator pw h e d rate
    in maxLoanAllowed res = maxLoan \<and>
       maxCashOutAllowed res = maxCashOut \<and>
       (if js_le (Fin desiredCashOut) maxCashOut
        then \<not> wasCapped res \<and> adjustedCashOut res = Fin desiredCashOut
        else wasCapped res \<and> adjustedCashOut res = maxCashOut) \<and>
       newLoanAmount res = js_add (Fin existingBalance) (adjustedCashOut res))"
proof -
  define de where "de = max 0 (finiteOrZero d)"
  define mc where "mc = Math_max (Fin 0)
      (js_sub (js_mul (Fin (max 0 (finiteOrZero h))) MAX_LTV) (Fin (max 0 (finiteOrZero e))))"
  have "nonneg_num mc" unfolding mc_def by (rule maxCashOut_class) simp
  moreover have "0 \<le> de" by (simp add: de_def)
  ultimately have cap: "if js_le (Fin de) mc
      then \<not> js_gt (Fin de) mc \<and> Math_min (Fin de) mc = Fin de
      else js_gt (Fin de) mc \<and> Math_min (Fin de) mc = mc"
    using capped_class by blast
  have eq: "round64 0.80 = MAX_LTV" by (simp add: MAX_LTV_def)
  show ?thesis
    unfolding Let_def CashOut_unfold eq de_def [symmetric] mc_def [symmetric]
    using cap by (simp del: Math_min.simps Math_max.simps)
qed

text \<open>The product is rounded: 350000.5 times the binary64 value of 0.8 is the binary64
  value of 280000.4, so a desired 280000.4 is not capped.\<close>

theorem cash_out_capping_witness:
  "wasCapped (CashOutCalculator pow_rounded (Fin 500000) (Fin 300000) (Fin 150000) (Fin 6.75)) \<and>
   adjustedCashOut (CashOutCalculator pow_rounded (Fin 500000) (Fin 300000) (Fin 150000) (Fin 6.75))
     = Fin 100000 \<and>
   newLoanAmount (CashOutCalculator pow_rounded (Fin 500000) (Fin 300000) (Fin 150000) (Fin 6.75))
     = Fin 400000 \<and>
   maxLoanAllowed (CashOutCalculator pow_rounded (Fin 350000.5) (Fin 0) (round64 280000.4) (Fin 6.75))
     = round64 280000.4 \<and>
   \<not> wasCapped (CashOutCalculator pow_rounded (Fin 350000.5) (Fin 0) (round64 280000.4) (Fin 6.75)) \<and>
   adjustedCashOut (CashOutCalculator pow_rounded (Fin 350000.5) (Fin 0) (round64 280000.4) (Fin 6.75))
     = round64 280000.4"
proof -
  have e0: "round64 (56294995342131203125 / 140737488355328) = Fin 400000"
    by (subst round64_eval_pos [where e = "18"]) (simp_all add: rne_eval Let_def)
  have e1: "round64 (4 / 5) = Fin (3602879701896397 / 4503599627370496)"
    by (subst round64_eval_pos [where e = "- 1"]) (simp_all add: rne_eval Let_def)
  have e2: "round64 (90071992547409925 / 1125899906842624) = Fin 80"
    by (subst round64_eval_pos [where e = "6"]) (simp_all add: rne_eval Let_def)
  have e3: "round64 (1400002 / 5) = Fin (2405185121733837 / 8589934592)"
    by (subst round64_eval_pos [where e = "18"]) (simp_all add: rne_eval Let_def)
  have e4: "round64 (2522019394207179796397 / 9007199254740992) =
      Fin (2405185121733837 / 8589934592)"
    by (subst round64_eval_pos [where e = "18"]) (simp_all add: rne_eval Let_def)
  have e5: "round64 (2405185121733837 / 8589934592) = Fin (2405185121733837 / 8589934592)"
    by (subst round64_eval_pos [where e = "18"]) (simp_all add: rne_eval Let_def)
  have e6: "round64 (2405185121733837 / 3006481402167296) =
      Fin (3602879701896397 / 4503599627370496)"
    by (subst round64_eval_pos [where e = "- 1"]) (simp_all add: rne_eval Let_def)
  show ?thesis
    using cash_out_capping [of "Fin 500000" "Fin 300000" "Fin 150000" pow_rounded "Fin 6.75"]
      cash_out_capping [of "Fin 350000.5" "Fin 0" "round64 280000.4" pow_rounded "Fin 6.75"]
    by (simp add: Let_def js_sub_def js_le_def round64_numeral round64_overflow round64_minus lit_0_8 e0 e1 e2 e3 e4 e5 e6)
qed

text \<open>
  C10, as stated: the loan-to-value percentage is guarded against a division by zero and
  is never undefined or non-finite. The guard is there, but the quotient overflows: at a
  home value of \<open>2^-1000\<close> and a balance of \<open>2^30\<close> the home value passes the test
  \<open>homeValue > 0\<close> and the percentage is \<open>+\<infinity>\<close>.
\<close>

theorem cash_out_ltv_guarded_counterexample:
  "js_gt (CashOut_clampNonNegative (Fin (1 / 2 ^ 1000))) (Fin 0) \<and>
   newLoanAmount (CashOutCalculator pow_rounded (Fin (1 / 2 ^ 1000)) (Fin (2 ^ 30)) (Fin 0) (Fin 0))
     = Fin (2 ^ 30) \<and>
   ltvPercent (CashOutCalculator pow_rounded (Fin (1 / 2 ^ 1000)) (Fin (2 ^ 30)) (Fin 0) (Fin 0))
     = PInf"
  by (simp add: CashOut_unfold CashOut_clamp_copy Purchase_clamp_eq js_cmp_Fin zero_desired
      signed_inf_def round64_numeral round64_overflow del: Math_min.simps Math_max.simps)

text \<open>
  C10, amended: the loan-to-value percentage is guarded against a division by zero: it is
  0 when the clamped home value is 0, and for every home value above 0 it is
  \<open>(newLoanAmount / homeValue) * 100\<close> in binary64 arithmetic. It is never \<open>NaN\<close> and
  never negative: a non-negative finite number, or \<open>+\<infinity>\<close> when the quotient or the
  product overflows.
\<close>

theorem cash_out_ltv_guarded:
  "\<exists>homeValue.
     CashOut_clampNonNegative h = Fin homeValue \<and> 0 \<le> homeValue \<and>
     ltvPercent (CashOutCalculator pw h e d rate) =
       (if homeValue = 0 then Fin 0
        else js_mul (js_div (newLoanAmount (CashOutCalculator pw h e d rate)) (Fin homeValue))
               (Fin 100)) \<and>
     (ltvPercent (CashOutCalculator pw h e d rate) = PInf \<or>
      (\<exists>v. ltvPercent (CashOutCalculator pw h e d rate) = Fin v \<and> 0 \<le> v))"
proof -
  define hv where "hv = max 0 (finiteOrZero h)"
  define ex where "ex = max 0 (finiteOrZero e)"
  define de where "de = max 0 (finiteOrZero d)"
  define mc where "mc = Math_max (Fin 0) (js_sub (js_mul (Fin hv) MAX_LTV) (Fin ex))"
  define loan where "loan = js_add (Fin ex) (Math_min (Fin de) mc)"
  define ltv where "ltv = (if hv = 0 then Fin 0 else js_mul (js_div loan (Fin hv)) (Fin 100))"
  have hv0: "0 \<le> hv" and ex0: "0 \<le> ex" and de0: "0 \<le> de"
    by (simp_all add: hv_def ex_def de_def)
  have "nonneg_num mc" unfolding mc_def using hv0 by (rule maxCashOut_class)
  then obtain c where c: "Math_min (Fin de) mc = Fin c" "0 \<le> c"
    using capped_class [OF _ de0] by blast
  have ln: "nonneg_num loan" unfolding loan_def c using ex0 c(2) by (simp add: round64_nonneg)
  have "nonneg_num ltv"
  proof (cases "hv = 0")
    case True
    then show ?thesis by (simp add: ltv_def)
  next
    case False
    with hv0 have pos: "0 < hv" by simp
    have "nonneg_num (js_div loan (Fin hv))" using ln pos by (rule js_div_nonneg_pos)
    then have "nonneg_num (js_mul (js_div loan (Fin hv)) (Fin 100))"
      by (rule js_mul_nonneg_pos) simp
    with False show ?thesis by (simp add: ltv_def)
  qed
  then have cls: "ltv = PInf \<or> (\<exists>v. ltv = Fin v \<and> 0 \<le> v)" by (cases ltv) auto
  have l: "newLoanAmount (CashOutCalculator pw h e d rate) = loan"
    unfolding CashOut_unfold loan_def mc_def hv_def ex_def de_def by simp
  have v: "ltvPercent (CashOutCalculator pw h e d rate) = ltv"
    unfolding CashOut_unfold ltv_def loan_def mc_def
    using hv0 by (auto simp: hv_def ex_def de_def)
  have "CashOut_clampNonNegative h = Fin hv"
    by (simp add: CashOut_clamp_copy Purchase_clamp_eq hv_def)
  with hv0 cls show ?thesis unfolding l v ltv_def by blast
qed

theorem cash_out_ltv_guarded_witness:
  "ltvPercent (CashOutCalculator pow_rounded (Fin 500000) (Fin 300000) (Fin 50000) (Fin 6.75))
     = Fin 70 \<and>
   ltvPercent (CashOutCalculator pow_rounded (Fin 0) (Fin 300000) (Fin 50000) (Fin 6.75)) = Fin 0"
proof -
  have e0: "round64 (56294995342131203125 / 140737488355328) = Fin 400000"
    by (subst round64_eval_pos [where e = "18"]) (simp_all add: rne_eval Let_def)
  have e1: "round64 (7 / 10) = Fin (3152519739159347 / 4503599627370496)"
    by (subst round64_eval_pos [where e = "- 1"]) (simp_all add: rne_eval Let_def)
  have e2: "round64 (78812993478983675 / 1125899906842624) = Fin 70"
    by (subst round64_eval_pos [where e = "6"]) (simp_all add: rne_eval Let_def)
  show ?thesis
    using cash_out_ltv_guarded [of "Fin 500000" pow_rounded "Fin 300000" "Fin 50000" "Fin 6.75"]
    by (simp add: CashOut_unfold MAX_LTV_eq CashOut_clamp_copy Purchase_clamp_eq js_cmp_Fin
        js_sub_def round64_numeral round64_overflow round64_minus e0 e1 e2)
qed

section \<open>The refinance break-even\<close>



section \<open>The rate buydown schedule\<close>

text \<open>
  C7. For every loan amount and base rate, the temporary 2-1 schedule has exactly three
  rows, at the rates \<open>max(0, base - 2)\<close>, \<open>max(0, base - 1)\<close> and \<open>max(0, base)\<close>, none
  negative, each row's payment being the monthly payment at its rate; rows 1 and 2 carry
  \<open>savingsMonthly = basePayment - periodPayment\<close> and \<open>savingsAnnual\<close> 12 times that,
  \<open>basePayment\<close> being the monthly payment at the base rate, and row 3 carries neither
  field. With no buydown the schedule is exactly one row, for the full term, at the base
  payment and without the savings fields. Every operation is the binary64 one.
\<close>

theorem buydown_schedule:
  "(let basePayment = RateBuydown_calculateMonthlyPrincipalAndInterest pw loan (Fin base)
                        TERM_YEARS;
        y1Rate = Math_max (Fin 0) (js_sub (Fin base) (Fin 2));
        y2Rate = Math_max (Fin 0) (js_sub (Fin base) (Fin 1));
        y3Rate = Math_max (Fin 0) (Fin base);
        y1Pay = RateBuydown_calculateMonthlyPrincipalAndInterest pw loan y1Rate TERM_YEARS;
        y2Pay = RateBuydown_calculateMonthlyPrincipalAndInterest pw loan y2Rate TERM_YEARS;
        y3Pay = RateBuydown_calculateMonthlyPrincipalAndInterest pw loan y3Rate TERM_YEARS;
        res = RateBuydownCalculator pw temporary_2_1 loan (Fin base)
    in baseMonthlyPayment res = basePayment \<and>
       schedule res =
         [\<lparr> periodLabel = ''Year 1'',
            ratePercent = y1Rate,
            monthlyPayment = y1Pay,
            annualPayment = js_mul y1Pay (Fin 12),
            savingsMonthly = Some (js_sub basePayment y1Pay),
            savingsAnnual = Some (js_mul (js_sub basePayment y1Pay) (Fin 12)) \<rparr>,
          \<lparr> periodLabel = ''Year 2'',
            ratePercent = y2Rate,
            monthlyPayment = y2Pay,
            annualPayment = js_mul y2Pay (Fin 12),
            savingsMonthly = Some (js_sub basePayment y2Pay),
            savingsAnnual = Some (js_mul (js_sub basePayment y2Pay) (Fin 12)) \<rparr>,
          \<lparr> periodLabel = ''Year 3'' @ en_dash @ ''30'',
            ratePercent = y3Rate,
            monthlyPayment = y3Pay,
            annualPayment = js_mul y3Pay (Fin 12),
            savingsMonthly = None,
            savingsAnnual = None \<rparr>] \<and>
       js_le (Fin 0) y1Rate \<and> js_le (Fin 0) y2Rate \<and> js_le (Fin 0) y3Rate \<and>
       y3Pay = basePayment) \<and>
   (let basePayment = RateBuydown_calculateMonthlyPrincipalAndInterest pw loan (Fin base)
                        TERM_YEARS;
        res = RateBuydownCalculator pw none loan (Fin base)
    in baseMonthlyPayment res = basePayment \<and>
       schedule res =
         [\<lparr> periodLabel = ''Year 1'' @ en_dash @ ''30'',
            ratePercent = Math_max (Fin 0) (Fin base),
            monthlyPayment = basePayment,
            annualPayment = js_mul basePayment (Fin 12),
            savingsMonthly = None,
            savingsAnnual = None \<rparr>] \<and>
       js_le (Fin 0) (Math_max (Fin 0) (Fin base)))"
proof -
  have rate: "js_le (Fin 0) (Math_max (Fin 0) a)" if "a \<noteq> NaN" for a
    using that by (cases a) (auto simp: js_le_def)
  have sub: "js_sub (Fin base) (Fin x) \<noteq> NaN" for x
    by (simp add: js_sub_def)
  have same: "RateBuydown_calculateMonthlyPrincipalAndInterest pw loan
      (Math_max (Fin 0) (Fin base)) TERM_YEARS =
      RateBuydown_calculateMonthlyPrincipalAndInterest pw loan (Fin base) TERM_YEARS"
    unfolding RateBuydown_payment_copy Purchase_payment_unfold
    by (simp add: Math_max_Fin del: Math_max.simps)
  show ?thesis
    unfolding RateBuydownCalculator_def Let_def
    using rate [OF sub [of 2]] rate [OF sub [of 1]] rate [of "Fin base"] same
    by (simp del: Math_max.simps)
qed


end
